theory Spec2Isabelle
  imports Main
begin

section \<open>Common types of the contracts\<close>

text \<open>
  The governance core of the repository is two Solidity contracts, \<open>AgentQuorum\<close> and
  \<open>BondingCurveFactory\<close> (compiled with \<open>pragma solidity ^0.8.20\<close>, so every arithmetic
  operation is checked and reverts on overflow). An \<open>address\<close> and a \<open>uint256\<close> are
  natural numbers; the bound of \<open>uint256\<close> is written out where the code increments or
  adds. A \<open>require\<close> that fails is \<open>Revert\<close> with the message of the source, a failed
  arithmetic check is \<open>Panic\<close>. A call that reverts returns no state: the ledger keeps
  the state it had before the call. Events are not part of the model.
\<close>

type_synonym address = nat
type_synonym uint256 = nat

definition MAX_UINT256 :: nat where
  "MAX_UINT256 = 2 ^ 256 - 1"

datatype error = Revert string | Panic

section \<open>AgentQuorum\<close>

datatype ProposalStatus = Active | Passed | Failed | Executed

record Proposal =
  proposalId :: uint256
  proposer :: address
  tokenName :: string
  tokenSymbol :: string
  description :: string
  quorumMembers :: "address list"
  hasVoted :: "address \<Rightarrow> bool"
  voteChoice :: "address \<Rightarrow> bool"
  yesVotes :: uint256
  noVotes :: uint256
  createdAt :: uint256
  votingDeadline :: uint256
  status :: ProposalStatus

record AgentQuorum =
  proposals :: "uint256 \<Rightarrow> Proposal"
  proposalCount :: uint256
  verifiedAgents :: "address \<Rightarrow> bool"
  agentReputation :: "address \<Rightarrow> uint256"
  admin :: address
  bondingCurveFactory :: address

definition MIN_QUORUM_SIZE :: nat where
  "MIN_QUORUM_SIZE = 3"

definition MAX_QUORUM_SIZE :: nat where
  "MAX_QUORUM_SIZE = 5"

text \<open>\<open>7 days\<close>, in seconds.\<close>

definition VOTING_PERIOD :: nat where
  "VOTING_PERIOD = 7 * 24 * 60 * 60"

text \<open>The value every slot of the \<open>proposals\<close> mapping holds before it is written.\<close>

definition zeroProposal :: Proposal where
  "zeroProposal =
     \<lparr>proposalId = 0, proposer = 0, tokenName = [], tokenSymbol = [], description = [],
      quorumMembers = [], hasVoted = (\<lambda>_. False), voteChoice = (\<lambda>_. False),
      yesVotes = 0, noVotes = 0, createdAt = 0, votingDeadline = 0, status = Active\<rparr>"

text \<open>\<open>constructor() { admin = msg.sender; }\<close>\<close>

definition constructor :: "address \<Rightarrow> AgentQuorum" where
  "constructor sender =
     \<lparr>proposals = (\<lambda>_. zeroProposal), proposalCount = 0, verifiedAgents = (\<lambda>_. False),
      agentReputation = (\<lambda>_. 0), admin = sender, bondingCurveFactory = 0\<rparr>"

subsection \<open>Admin functions\<close>

definition setBondingCurveFactory :: "AgentQuorum \<Rightarrow> address \<Rightarrow> address \<Rightarrow> error + AgentQuorum" where
  "setBondingCurveFactory q sender factory' =
     (if sender \<noteq> admin q then Inl (Revert ''Only admin'')
      else if factory' = 0 then Inl (Revert ''Invalid factory address'')
      else Inr (q\<lparr>bondingCurveFactory := factory'\<rparr>))"

definition verifyAgent :: "AgentQuorum \<Rightarrow> address \<Rightarrow> address \<Rightarrow> error + AgentQuorum" where
  "verifyAgent q sender agent =
     (if sender \<noteq> admin q then Inl (Revert ''Only admin'')
      else if verifiedAgents q agent then Inl (Revert ''Agent already verified'')
      else Inr (q\<lparr>verifiedAgents := (verifiedAgents q)(agent := True)\<rparr>))"

definition unverifyAgent :: "AgentQuorum \<Rightarrow> address \<Rightarrow> address \<Rightarrow> error + AgentQuorum" where
  "unverifyAgent q sender agent =
     (if sender \<noteq> admin q then Inl (Revert ''Only admin'')
      else if \<not> verifiedAgents q agent then Inl (Revert ''Agent not verified'')
      else Inr (q\<lparr>verifiedAgents := (verifiedAgents q)(agent := False)\<rparr>))"

subsection \<open>createProposal\<close>

text \<open>The inner loop over \<open>j = i + 1 ..\<close>: \<open>require(quorumMembers[i] != quorumMembers[j])\<close>.\<close>

fun checkDuplicates :: "address \<Rightarrow> address list \<Rightarrow> error option" where
  "checkDuplicates m [] = None"
| "checkDuplicates m (x # xs) =
     (if m = x then Some (Revert ''Duplicate quorum member'') else checkDuplicates m xs)"

text \<open>The outer loop over \<open>i\<close>: the member is verified, then it differs from all later ones.\<close>

fun checkQuorumMembers :: "(address \<Rightarrow> bool) \<Rightarrow> address list \<Rightarrow> error option" where
  "checkQuorumMembers v [] = None"
| "checkQuorumMembers v (m # ms) =
     (if \<not> v m then Some (Revert ''Invalid quorum member'')
      else (case checkDuplicates m ms of
              Some e \<Rightarrow> Some e
            | None \<Rightarrow> checkQuorumMembers v ms))"

text \<open>The membership loop with \<open>break\<close>, used for the proposer and for a voter.\<close>

fun inQuorum :: "address \<Rightarrow> address list \<Rightarrow> bool" where
  "inQuorum a [] = False"
| "inQuorum a (x # xs) = (if x = a then True else inQuorum a xs)"

definition createProposal ::
  "AgentQuorum \<Rightarrow> address \<Rightarrow> uint256 \<Rightarrow> string \<Rightarrow> string \<Rightarrow> string \<Rightarrow> address list
     \<Rightarrow> error + (AgentQuorum \<times> uint256)" where
  "createProposal q sender timestamp tName tSymbol descr members =
     (if \<not> verifiedAgents q sender then Inl (Revert ''Not verified agent'')
      else if \<not> length members \<ge> MIN_QUORUM_SIZE then Inl (Revert ''Quorum too small'')
      else if \<not> length members \<le> MAX_QUORUM_SIZE then Inl (Revert ''Quorum too large'')
      else (case checkQuorumMembers (verifiedAgents q) members of
              Some e \<Rightarrow> Inl e
            | None \<Rightarrow>
               if \<not> inQuorum sender members then Inl (Revert ''Proposer must be in quorum'')
               else if proposalCount q + 1 > MAX_UINT256 then Inl Panic
               else if timestamp + VOTING_PERIOD > MAX_UINT256 then Inl Panic
               else
                 let pid = proposalCount q;
                     p = (proposals q pid)
                           \<lparr>proposalId := pid, proposer := sender, tokenName := tName,
                            tokenSymbol := tSymbol, description := descr,
                            quorumMembers := members, createdAt := timestamp,
                            votingDeadline := timestamp + VOTING_PERIOD, status := Active\<rparr>
                 in Inr (q\<lparr>proposalCount := pid + 1,
                           proposals := (proposals q)(pid := p)\<rparr>, pid)))"

subsection \<open>castVote\<close>

definition checkProposalStatus :: "Proposal \<Rightarrow> Proposal" where
  "checkProposalStatus p =
     (if noVotes p > 0 then p\<lparr>status := Failed\<rparr>
      else if yesVotes p = length (quorumMembers p) then p\<lparr>status := Passed\<rparr>
      else p)"

definition castVote ::
  "AgentQuorum \<Rightarrow> address \<Rightarrow> uint256 \<Rightarrow> uint256 \<Rightarrow> bool \<Rightarrow> error + AgentQuorum" where
  "castVote q sender timestamp pid vote =
     (if \<not> pid < proposalCount q then Inl (Revert ''Proposal does not exist'')
      else if status (proposals q pid) \<noteq> Active then Inl (Revert ''Proposal not active'')
      else if \<not> timestamp \<le> votingDeadline (proposals q pid)
        then Inl (Revert ''Voting period ended'')
      else
        let p = proposals q pid in
        if \<not> inQuorum sender (quorumMembers p) then Inl (Revert ''Not a quorum member'')
        else if hasVoted p sender then Inl (Revert ''Already voted'')
        else
          let p1 = p\<lparr>hasVoted := (hasVoted p)(sender := True),
                     voteChoice := (voteChoice p)(sender := vote)\<rparr>
          in if vote
             then (if yesVotes p1 + 1 > MAX_UINT256 then Inl Panic
                   else Inr (q\<lparr>proposals := (proposals q)
                        (pid := checkProposalStatus (p1\<lparr>yesVotes := yesVotes p1 + 1\<rparr>))\<rparr>))
             else (if noVotes p1 + 1 > MAX_UINT256 then Inl Panic
                   else Inr (q\<lparr>proposals := (proposals q)
                        (pid := checkProposalStatus (p1\<lparr>noVotes := noVotes p1 + 1\<rparr>))\<rparr>)))"

subsection \<open>finalizeProposal and executeProposal\<close>

definition finalizeProposal ::
  "AgentQuorum \<Rightarrow> address \<Rightarrow> uint256 \<Rightarrow> uint256 \<Rightarrow> error + AgentQuorum" where
  "finalizeProposal q sender timestamp pid =
     (if \<not> pid < proposalCount q then Inl (Revert ''Proposal does not exist'')
      else
        let p = proposals q pid in
        if status p \<noteq> Active then Inl (Revert ''Proposal not active'')
        else if \<not> timestamp > votingDeadline p then Inl (Revert ''Voting period not ended'')
        else if yesVotes p \<noteq> length (quorumMembers p)
          then Inr (q\<lparr>proposals := (proposals q)(pid := p\<lparr>status := Failed\<rparr>)\<rparr>)
        else Inr q)"

text \<open>The loop \<open>agentReputation[p.quorumMembers[i]]++\<close>, each increment checked.\<close>

fun increaseReputation ::
  "(address \<Rightarrow> uint256) \<Rightarrow> address list \<Rightarrow> error + (address \<Rightarrow> uint256)" where
  "increaseReputation r [] = Inr r"
| "increaseReputation r (m # ms) =
     (if r m + 1 > MAX_UINT256 then Inl Panic
      else increaseReputation (r(m := r m + 1)) ms)"

definition executeProposal :: "AgentQuorum \<Rightarrow> address \<Rightarrow> uint256 \<Rightarrow> error + AgentQuorum" where
  "executeProposal q sender pid =
     (if sender \<noteq> bondingCurveFactory q then Inl (Revert ''Only factory'')
      else
        let p = proposals q pid in
        if status p \<noteq> Passed then Inl (Revert ''Proposal not passed'')
        else (case increaseReputation (agentReputation q) (quorumMembers p) of
                Inl e \<Rightarrow> Inl e
              | Inr r \<Rightarrow>
                 Inr (q\<lparr>proposals := (proposals q)(pid := p\<lparr>status := Executed\<rparr>),
                        agentReputation := r\<rparr>)))"

text \<open>The view \<open>getProposal\<close>, which the factory reads; it has the \<open>proposalExists\<close> modifier.\<close>

definition getProposal :: "AgentQuorum \<Rightarrow> uint256 \<Rightarrow> error + Proposal" where
  "getProposal q pid =
     (if \<not> pid < proposalCount q then Inl (Revert ''Proposal does not exist'')
      else Inr (proposals q pid))"

subsection \<open>Transactions on the contract\<close>

text \<open>
  Every external function that writes state, as one call. A transaction is a call with its
  \<open>msg.sender\<close> and \<open>block.timestamp\<close>; one that reverts leaves the state as it was.
\<close>

datatype call =
    SetBondingCurveFactory address
  | VerifyAgent address
  | UnverifyAgent address
  | CreateProposal string string string "address list"
  | CastVote uint256 bool
  | FinalizeProposal uint256
  | ExecuteProposal uint256

fun exec :: "AgentQuorum \<Rightarrow> address \<Rightarrow> uint256 \<Rightarrow> call \<Rightarrow> error + AgentQuorum" where
  "exec q sender timestamp (SetBondingCurveFactory f) = setBondingCurveFactory q sender f"
| "exec q sender timestamp (VerifyAgent a) = verifyAgent q sender a"
| "exec q sender timestamp (UnverifyAgent a) = unverifyAgent q sender a"
| "exec q sender timestamp (CreateProposal n s d ms) =
     (case createProposal q sender timestamp n s d ms of
        Inl e \<Rightarrow> Inl e
      | Inr (q', pid) \<Rightarrow> Inr q')"
| "exec q sender timestamp (CastVote pid v) = castVote q sender timestamp pid v"
| "exec q sender timestamp (FinalizeProposal pid) = finalizeProposal q sender timestamp pid"
| "exec q sender timestamp (ExecuteProposal pid) = executeProposal q sender pid"

type_synonym tx = "address \<times> uint256 \<times> call"

fun apply_tx :: "AgentQuorum \<Rightarrow> tx \<Rightarrow> AgentQuorum" where
  "apply_tx q (sender, timestamp, c) =
     (case exec q sender timestamp c of Inl e \<Rightarrow> q | Inr q' \<Rightarrow> q')"

fun run :: "AgentQuorum \<Rightarrow> tx list \<Rightarrow> AgentQuorum" where
  "run q [] = q"
| "run q (t # ts) = run (apply_tx q t) ts"

text \<open>The states the contract can be in: deployed, then any transactions.\<close>

inductive reachable :: "AgentQuorum \<Rightarrow> bool" where
  deployed: "reachable (constructor deployer)"
| transact: "reachable q \<Longrightarrow> reachable (apply_tx q t)"

subsection \<open>Vocabulary of the properties\<close>

text \<open>What \<open>createProposal\<close> requires of its caller and of the member list.\<close>

definition createProposal_pre :: "AgentQuorum \<Rightarrow> address \<Rightarrow> address list \<Rightarrow> bool" where
  "createProposal_pre q sender members \<longleftrightarrow>
     verifiedAgents q sender \<and> 3 \<le> length members \<and> length members \<le> 5 \<and>
     distinct members \<and> (\<forall>m\<in>set members. verifiedAgents q m) \<and> sender \<in> set members"

text \<open>The reverts of \<open>createProposal\<close> that reject its input.\<close>

definition createProposal_errors :: "error set" where
  "createProposal_errors =
     {Revert ''Not verified agent'', Revert ''Quorum too small'', Revert ''Quorum too large'',
      Revert ''Invalid quorum member'', Revert ''Duplicate quorum member'',
      Revert ''Proposer must be in quorum''}"

text \<open>A deployed contract whose admin (address 1) has verified the agents 10, 11 and 12.\<close>

definition agents3 :: AgentQuorum where
  "agents3 = run (constructor 1)
     [(1, 0, VerifyAgent 10), (1, 0, VerifyAgent 11), (1, 0, VerifyAgent 12)]"

subsection \<open>The invariant of the proposals\<close>

text \<open>
  The members of a proposal whose recorded vote is yes, and those whose recorded vote is no.
\<close>

definition yesVoters :: "Proposal \<Rightarrow> address list" where
  "yesVoters p = filter (\<lambda>m. hasVoted p m \<and> voteChoice p m) (quorumMembers p)"

definition noVoters :: "Proposal \<Rightarrow> address list" where
  "noVoters p = filter (\<lambda>m. hasVoted p m \<and> \<not> voteChoice p m) (quorumMembers p)"

text \<open>
  What holds of every proposal that \<open>createProposal\<close> has written: the member list is
  as it was validated, the two counters count the recorded votes, an active proposal has
  no no-vote, and the proposal has passed exactly when the yes counter has reached the
  number of members.
\<close>

definition created_inv :: "Proposal \<Rightarrow> bool" where
  "created_inv p \<longleftrightarrow>
     3 \<le> length (quorumMembers p) \<and> length (quorumMembers p) \<le> 5 \<and>
     distinct (quorumMembers p) \<and>
     yesVotes p = length (yesVoters p) \<and>
     noVotes p = length (noVoters p) \<and>
     (status p = Active \<longrightarrow> noVotes p = 0) \<and>
     ((status p = Passed \<or> status p = Executed) \<longleftrightarrow> yesVotes p = length (quorumMembers p))"

text \<open>Slots below \<open>proposalCount\<close> hold created proposals, all others are untouched.\<close>

definition quorum_inv :: "AgentQuorum \<Rightarrow> bool" where
  "quorum_inv q \<longleftrightarrow>
     (\<forall>i. if i < proposalCount q then created_inv (proposals q i)
          else proposals q i = zeroProposal)"

text \<open>The edges of the status machine: Active to Passed or Failed, Passed to Executed.\<close>

definition legal_edge :: "ProposalStatus \<Rightarrow> ProposalStatus \<Rightarrow> bool" where
  "legal_edge a b \<longleftrightarrow>
     (a = Active \<and> b = Passed) \<or> (a = Active \<and> b = Failed) \<or> (a = Passed \<and> b = Executed)"

definition statusOf :: "AgentQuorum \<Rightarrow> uint256 \<Rightarrow> ProposalStatus" where
  "statusOf q i = status (proposals q i)"

text \<open>
  Agent 10 proposes a token with the members 10, 11 and 12; then all three vote yes and
  the admin registers address 99 as the factory.
\<close>

definition proposed3 :: AgentQuorum where
  "proposed3 = apply_tx agents3 (10, 1000, CreateProposal ''Token'' ''TKN'' ''team'' [10, 11, 12])"

definition passed3 :: AgentQuorum where
  "passed3 = run proposed3 [(10, 2000, CastVote 0 True), (12, 2001, CastVote 0 True),
     (11, 2002, CastVote 0 True), (1, 2003, SetBondingCurveFactory 99)]"

text \<open>Two of the three members have voted yes; the third never votes.\<close>

definition twoYes3 :: AgentQuorum where
  "twoYes3 = run proposed3 [(10, 2000, CastVote 0 True), (11, 2001, CastVote 0 True)]"


text \<open>After two yes votes the admin withdraws the verification of agent 12, who has not voted.\<close>

definition revoked3 :: AgentQuorum where
  "revoked3 = apply_tx twoYes3 (1, 2500, UnverifyAgent 12)"

text \<open>Then the admin verifies agent 13, who is not a member of the proposal.\<close>

definition outsider3 :: AgentQuorum where
  "outsider3 = apply_tx revoked3 (1, 2550, VerifyAgent 13)"

text \<open>The members \<open>ms\<close> vote yes on proposal \<open>pid\<close>, one after the other, in the order of the list.\<close>

fun voteYes :: "AgentQuorum \<Rightarrow> uint256 \<Rightarrow> uint256 \<Rightarrow> address list \<Rightarrow> error + AgentQuorum" where
  "voteYes q ts pid [] = Inr q"
| "voteYes q ts pid (m # ms) =
     (case castVote q m ts pid True of
        Inl e \<Rightarrow> Inl e
      | Inr q' \<Rightarrow> voteYes q' ts pid ms)"

text \<open>The members of a proposal that have not voted.\<close>

definition unvoted :: "AgentQuorum \<Rightarrow> uint256 \<Rightarrow> address set" where
  "unvoted q pid = {m \<in> set (quorumMembers (proposals q pid)). \<not> hasVoted (proposals q pid) m}"

text \<open>Every member of a proposal has a recorded yes vote.\<close>

definition allYes :: "AgentQuorum \<Rightarrow> uint256 \<Rightarrow> bool" where
  "allYes q pid \<longleftrightarrow>
     list_all (\<lambda>m. hasVoted (proposals q pid) m \<and> voteChoice (proposals q pid) m)
       (quorumMembers (proposals q pid))"


text \<open>The ids of the executed proposals.\<close>

definition executedIds :: "AgentQuorum \<Rightarrow> uint256 set" where
  "executedIds q = {i. i < proposalCount q \<and> statusOf q i = Executed}"

text \<open>
  No reputation counter exceeds the number of executed proposals, and the proposal counter
  is within \<open>uint256\<close>.
\<close>

definition reputation_inv :: "AgentQuorum \<Rightarrow> bool" where
  "reputation_inv q \<longleftrightarrow>
     proposalCount q \<le> MAX_UINT256 \<and> (\<forall>a. agentReputation q a \<le> card (executedIds q))"

section \<open>BondingCurveFactory\<close>

text \<open>
  The arguments \<open>launchToken\<close> passes to \<open>new BondingCurveToken(...)\<close>. The token contract
  (\<open>BondingCurve.sol\<close>) is imported by the factory; the factory only constructs it.
\<close>

record TokenArgs =
  argName :: string
  argSymbol :: string
  argQuorumMembers :: "address list"
  argPlatformFeeRecipient :: address
  argUniswapV2Router :: address
  argProposalId :: uint256

text \<open>The state of the factory; \<open>factoryAdmin\<close> is its \<open>admin\<close>.\<close>

record BondingCurveFactory =
  quorumContract :: address
  platformFeeRecipient :: address
  uniswapV2Router :: address
  proposalToToken :: "uint256 \<Rightarrow> address"
  allTokens :: "address list"
  factoryAdmin :: address

definition factoryConstructor ::
  "address \<Rightarrow> address \<Rightarrow> address \<Rightarrow> address \<Rightarrow> error + BondingCurveFactory" where
  "factoryConstructor sender quorumContract' platformFeeRecipient' uniswapV2Router' =
     (if quorumContract' = 0 then Inl (Revert ''Invalid quorum contract'')
      else if platformFeeRecipient' = 0 then Inl (Revert ''Invalid fee recipient'')
      else if uniswapV2Router' = 0 then Inl (Revert ''Invalid router'')
      else Inr \<lparr>quorumContract = quorumContract', platformFeeRecipient = platformFeeRecipient',
                uniswapV2Router = uniswapV2Router', proposalToToken = (\<lambda>_. 0),
                allTokens = [], factoryAdmin = sender\<rparr>)"

text \<open>
  The ledger as far as the two contracts see it: the \<open>AgentQuorum\<close> the factory points to,
  the factory with its own address (the \<open>msg.sender\<close> of the calls it makes), and the token
  contracts that \<open>new\<close> has created, each with the arguments of its construction.
\<close>

record World =
  quorum :: AgentQuorum
  factory :: BondingCurveFactory
  factoryAddress :: address
  deployedTokens :: "(address \<times> TokenArgs) list"

text \<open>
  \<open>launchToken\<close>. The outcome of \<open>new BondingCurveToken(...)\<close> is the parameter \<open>create\<close>:
  the address of the new contract, or the revert of its constructor. The function never
  reads \<open>msg.sender\<close>; the parameter \<open>sender\<close> is there to say so. A revert anywhere,
  also in the inner call of \<open>executeProposal\<close>, reverts the whole call.
\<close>

definition launchToken ::
  "(TokenArgs \<Rightarrow> error + address) \<Rightarrow> World \<Rightarrow> address \<Rightarrow> uint256 \<Rightarrow> error + (World \<times> address)" where
  "launchToken create w sender pid =
     (case getProposal (quorum w) pid of
        Inl e \<Rightarrow> Inl e
      | Inr p \<Rightarrow>
         if status p \<noteq> Passed then Inl (Revert ''Proposal not passed'')
         else if proposalToToken (factory w) pid \<noteq> 0 then Inl (Revert ''Already launched'')
         else
           let args = \<lparr>argName = tokenName p, argSymbol = tokenSymbol p,
                       argQuorumMembers = quorumMembers p,
                       argPlatformFeeRecipient = platformFeeRecipient (factory w),
                       argUniswapV2Router = uniswapV2Router (factory w),
                       argProposalId = pid\<rparr>
           in (case create args of
                 Inl e \<Rightarrow> Inl e
               | Inr token \<Rightarrow>
                  let f = (factory w)
                        \<lparr>proposalToToken := (proposalToToken (factory w))(pid := token),
                         allTokens := allTokens (factory w) @ [token]\<rparr>
                  in (case executeProposal (quorum w) (factoryAddress w) pid of
                        Inl e \<Rightarrow> Inl e
                      | Inr q' \<Rightarrow>
                         Inr (w\<lparr>quorum := q', factory := f,
                                deployedTokens := deployedTokens w @ [(token, args)]\<rparr>,
                              token))))"

text \<open>The constructor arguments \<open>launchToken\<close> builds for proposal \<open>pid\<close>.\<close>

definition launchArgs :: "World \<Rightarrow> uint256 \<Rightarrow> TokenArgs" where
  "launchArgs w pid =
     \<lparr>argName = tokenName (proposals (quorum w) pid),
      argSymbol = tokenSymbol (proposals (quorum w) pid),
      argQuorumMembers = quorumMembers (proposals (quorum w) pid),
      argPlatformFeeRecipient = platformFeeRecipient (factory w),
      argUniswapV2Router = uniswapV2Router (factory w),
      argProposalId = pid\<rparr>"

definition updatePlatformFeeRecipient ::
  "BondingCurveFactory \<Rightarrow> address \<Rightarrow> address \<Rightarrow> error + BondingCurveFactory" where
  "updatePlatformFeeRecipient f sender newRecipient =
     (if sender \<noteq> factoryAdmin f then Inl (Revert ''Only admin'')
      else if newRecipient = 0 then Inl (Revert ''Invalid address'')
      else Inr (f\<lparr>platformFeeRecipient := newRecipient\<rparr>))"

definition updateUniswapRouter ::
  "BondingCurveFactory \<Rightarrow> address \<Rightarrow> address \<Rightarrow> error + BondingCurveFactory" where
  "updateUniswapRouter f sender newRouter =
     (if sender \<noteq> factoryAdmin f then Inl (Revert ''Only admin'')
      else if newRouter = 0 then Inl (Revert ''Invalid address'')
      else Inr (f\<lparr>uniswapV2Router := newRouter\<rparr>))"

subsection \<open>Transactions on the ledger\<close>

datatype wcall =
    QuorumCall call
  | LaunchToken uint256
  | UpdatePlatformFeeRecipient address
  | UpdateUniswapRouter address

fun wexec ::
  "(TokenArgs \<Rightarrow> error + address) \<Rightarrow> World \<Rightarrow> address \<Rightarrow> uint256 \<Rightarrow> wcall \<Rightarrow> error + World" where
  "wexec create w sender timestamp (QuorumCall c) =
     (case exec (quorum w) sender timestamp c of
        Inl e \<Rightarrow> Inl e
      | Inr q' \<Rightarrow> Inr (w\<lparr>quorum := q'\<rparr>))"
| "wexec create w sender timestamp (LaunchToken pid) =
     (case launchToken create w sender pid of
        Inl e \<Rightarrow> Inl e
      | Inr (w', token) \<Rightarrow> Inr w')"
| "wexec create w sender timestamp (UpdatePlatformFeeRecipient a) =
     (case updatePlatformFeeRecipient (factory w) sender a of
        Inl e \<Rightarrow> Inl e
      | Inr f \<Rightarrow> Inr (w\<lparr>factory := f\<rparr>))"
| "wexec create w sender timestamp (UpdateUniswapRouter a) =
     (case updateUniswapRouter (factory w) sender a of
        Inl e \<Rightarrow> Inl e
      | Inr f \<Rightarrow> Inr (w\<lparr>factory := f\<rparr>))"

type_synonym wtx = "(TokenArgs \<Rightarrow> error + address) \<times> address \<times> uint256 \<times> wcall"

fun wapply :: "World \<Rightarrow> wtx \<Rightarrow> World" where
  "wapply w (create, sender, timestamp, c) =
     (case wexec create w sender timestamp c of Inl e \<Rightarrow> w | Inr w' \<Rightarrow> w')"

fun wrun :: "World \<Rightarrow> wtx list \<Rightarrow> World" where
  "wrun w [] = w"
| "wrun w (t # ts) = wrun (wapply w t) ts"

text \<open>
  The ledgers that can arise: the factory is deployed, at some address, next to a quorum
  contract in any state it can reach; then any transactions follow.
\<close>

inductive wreachable :: "World \<Rightarrow> bool" where
  wdeployed: "reachable q \<Longrightarrow> factoryConstructor sender qa fee router = Inr f \<Longrightarrow>
     wreachable \<lparr>quorum = q, factory = f, factoryAddress = fa, deployedTokens = []\<rparr>"
| wtransact: "wreachable w \<Longrightarrow> wreachable (wapply w t)"

text \<open>The token contracts that were created for proposal \<open>pid\<close>.\<close>

definition marketsOf :: "World \<Rightarrow> uint256 \<Rightarrow> (address \<times> TokenArgs) list" where
  "marketsOf w pid = filter (\<lambda>(token, args). argProposalId args = pid) (deployedTokens w)"

text \<open>Every created token and every recorded link belongs to an executed proposal.\<close>

definition world_inv :: "World \<Rightarrow> bool" where
  "world_inv w \<longleftrightarrow>
     quorum_inv (quorum w) \<and>
     (\<forall>pid. length (marketsOf w pid) \<le> 1 \<and>
            (marketsOf w pid \<noteq> [] \<longrightarrow> statusOf (quorum w) pid = Executed) \<and>
            (proposalToToken (factory w) pid \<noteq> 0 \<longrightarrow> statusOf (quorum w) pid = Executed))"

text \<open>
  A factory deployed at address 99 by the admin, pointing to the quorum contract (at
  address 50) in the state \<open>passed3\<close>, where 99 is the registered factory.
\<close>

definition factory0 :: BondingCurveFactory where
  "factory0 = \<lparr>quorumContract = 50, platformFeeRecipient = 60, uniswapV2Router = 70,
                proposalToToken = (\<lambda>_. 0), allTokens = [], factoryAdmin = 1\<rparr>"

definition linked3 :: World where
  "linked3 = \<lparr>quorum = passed3, factory = factory0, factoryAddress = 99, deployedTokens = []\<rparr>"

text \<open>A token constructor that succeeds, the new contract being at address 500.\<close>

definition create500 :: "TokenArgs \<Rightarrow> error + address" where
  "create500 args = Inr 500"

definition launched3 :: World where
  "launched3 = wapply linked3 (create500, 7, 3000, LaunchToken 0)"

text \<open>A later transaction on the ledger: the admin registers another factory address.\<close>

definition later3 :: "wtx list" where
  "later3 = [(create500, 1, 4000, QuorumCall (SetBondingCurveFactory 98))]"

text \<open>
  All three members have voted yes, but \<open>setBondingCurveFactory\<close> has not been called: the
  quorum contract's registered factory is still the zero address.
\<close>

definition unregistered3 :: AgentQuorum where
  "unregistered3 = run proposed3 [(10, 2000, CastVote 0 True), (12, 2001, CastVote 0 True),
     (11, 2002, CastVote 0 True)]"

definition unlinked3 :: World where
  "unlinked3 = \<lparr>quorum = unregistered3, factory = factory0, factoryAddress = 99,
                 deployedTokens = []\<rparr>"

section \<open>Curve Market\<close>

text \<open>
  The token contract \<open>BondingCurveToken\<close> (\<open>BondingCurve.sol\<close>), which the factory imports
  and constructs, is not among the sources. Its ledger is modelled from the specification
  (sections 3, 4.3, 4.4 and 8). What the specification leaves open is a parameter: the
  closed-form pricing (tokens for a payment, refund for a sale, the fee portion of a
  refund) is the record \<open>Pricing\<close>.
\<close>

text \<open>Modelled from the spec: the typed failures of the Curve Market (\<open>BondingCurve.sol\<close> is missing).\<close>

datatype market_error =
    MarketClosed
  | SupplyExceeded
  | ZeroAmount
  | InsufficientBalance
  | InsufficientRaisedBalance
  | InvalidFeeSplit
  | NotGraduated
  | NotAuthorized

text \<open>
  Modelled from the spec: the Trade record of section 3 (\<open>BondingCurve.sol\<close> is missing):
  amounts, fee breakdown with the base the fees were taken from, resulting supply and price.
  The position in the market's list is the ordering key.
\<close>

record Trade =
  isBuy :: bool
  trader :: address
  ethAmount :: nat
  tokenAmount :: nat
  feeBase :: nat
  platformFee :: nat
  liquidityFee :: nat
  agentFee :: nat
  supplyAfter :: nat
  priceAfter :: nat

text \<open>
  Modelled from the spec: the Market of section 3 (\<open>BondingCurve.sol\<close> is missing), with the
  slope and base price of the linear curve, the three fee ledgers, the holders' balances,
  the trade log, and the flag of the migration of section 4.4.
\<close>

record Market =
  totalSupplyCap :: nat
  currentSupply :: nat
  ethRaised :: nat
  slope :: nat
  basePrice :: nat
  platformBps :: nat
  liquidityBps :: nat
  agentBps :: nat
  graduated :: bool
  graduationThreshold :: nat
  migrated :: bool
  orchestrator :: address
  platformLedger :: nat
  liquidityLedger :: nat
  agentLedger :: nat
  holdings :: "address \<Rightarrow> nat"
  trades :: "Trade list"

text \<open>
  Modelled from the spec: the default fee split, 30% platform, 60% liquidity, 10% agents
  (\<open>BondingCurve.sol\<close> is missing; \<open>db/schema.sql\<close> has the same defaults 3000, 6000, 1000).
\<close>

definition defaultBps :: "nat \<times> nat \<times> nat" where
  "defaultBps = (3000, 6000, 1000)"

text \<open>
  Modelled from the spec: creation of a Market by the Orchestrator (\<open>BondingCurve.sol\<close> is
  missing). The fee split is fixed here, the default one when none is given, and must sum
  to 10000 basis points; supply, funds and ledgers start at zero.
\<close>

definition createMarket ::
  "address \<Rightarrow> nat \<Rightarrow> nat \<Rightarrow> nat \<Rightarrow> nat \<Rightarrow> (nat \<times> nat \<times> nat) option \<Rightarrow> market_error + Market" where
  "createMarket orch cap slope0 price0 threshold bps =
     (case (case bps of None \<Rightarrow> defaultBps | Some b \<Rightarrow> b) of
        (p, l, a) \<Rightarrow>
          if p + l + a \<noteq> 10000 then Inl InvalidFeeSplit
          else Inr \<lparr>totalSupplyCap = cap, currentSupply = 0, ethRaised = 0, slope = slope0,
                    basePrice = price0, platformBps = p, liquidityBps = l, agentBps = a,
                    graduated = False, graduationThreshold = threshold, migrated = False,
                    orchestrator = orch, platformLedger = 0, liquidityLedger = 0,
                    agentLedger = 0, holdings = (\<lambda>_. 0), trades = []\<rparr>)"

text \<open>
  Modelled from the spec: the price of the linear curve, derived from the supply
  (\<open>BondingCurve.sol\<close> is missing).
\<close>

definition currentPrice :: "Market \<Rightarrow> nat" where
  "currentPrice m = basePrice m + slope m * currentSupply m"

text \<open>
  Modelled from the spec: the split of a fee base into the three shares by the market's
  basis points, in integers (\<open>BondingCurve.sol\<close> is missing). The liquidity and agent shares
  are the truncated products. The specification has the base split into the shares and
  does not say which share takes what truncation leaves: the platform share is what is
  left of the base.
\<close>

definition splitFee :: "Market \<Rightarrow> nat \<Rightarrow> nat \<times> nat \<times> nat" where
  "splitFee m base =
     (let l = base * liquidityBps m div 10000;
          a = base * agentBps m div 10000
      in (base - l - a, l, a))"

text \<open>
  Modelled from the spec: the pricing the specification describes only as a closed form
  (\<open>BondingCurve.sol\<close> is missing): the tokens a payment buys, the gross refund of a sale,
  and the fee portion of a gross refund.
\<close>

record Pricing =
  tokensFor :: "Market \<Rightarrow> nat \<Rightarrow> nat"
  refundFor :: "Market \<Rightarrow> nat \<Rightarrow> nat"
  feePortion :: "Market \<Rightarrow> nat \<Rightarrow> nat"

text \<open>
  Modelled from the spec: \<open>buy\<close> of section 4.3 (\<open>BondingCurve.sol\<close> is missing). A graduated
  market is closed; the payment is positive; the supply cap holds; the whole payment is
  the fee base and is added to \<open>ethRaised\<close>; the threshold is checked after the update.
\<close>

definition buy :: "Pricing \<Rightarrow> Market \<Rightarrow> address \<Rightarrow> nat \<Rightarrow> market_error + Market" where
  "buy pr m sender eth =
     (if graduated m then Inl MarketClosed
      else if eth = 0 then Inl ZeroAmount
      else
        let d = tokensFor pr m eth in
        if currentSupply m + d > totalSupplyCap m then Inl SupplyExceeded
        else
          (case splitFee m eth of
             (pf, lf, af) \<Rightarrow>
               let m1 = m\<lparr>platformLedger := platformLedger m + pf,
                          liquidityLedger := liquidityLedger m + lf,
                          agentLedger := agentLedger m + af,
                          holdings := (holdings m)(sender := holdings m sender + d),
                          currentSupply := currentSupply m + d,
                          ethRaised := ethRaised m + eth\<rparr>;
                   m2 = m1\<lparr>trades := trades m1 @
                          [\<lparr>isBuy = True, trader = sender, ethAmount = eth, tokenAmount = d,
                            feeBase = eth, platformFee = pf, liquidityFee = lf, agentFee = af,
                            supplyAfter = currentSupply m1, priceAfter = currentPrice m1\<rparr>]\<rparr>
               in Inr (if ethRaised m2 \<ge> graduationThreshold m2
                       then m2\<lparr>graduated := True\<rparr> else m2)))"

text \<open>
  Modelled from the spec: \<open>sell\<close> of section 4.3 (\<open>BondingCurve.sol\<close> is missing). A graduated
  market is closed; the seller holds the tokens; the gross refund is within what the curve
  has raised; the fee portion of the refund is split like a buy's payment and the net goes
  to the seller.
\<close>

definition sell :: "Pricing \<Rightarrow> Market \<Rightarrow> address \<Rightarrow> nat \<Rightarrow> market_error + Market" where
  "sell pr m sender amount =
     (if graduated m then Inl MarketClosed
      else if holdings m sender < amount then Inl InsufficientBalance
      else
        let gross = refundFor pr m amount; fee = feePortion pr m gross in
        if amount > currentSupply m \<or> gross > ethRaised m \<or> fee > gross
          then Inl InsufficientRaisedBalance
        else
          (case splitFee m fee of
             (pf, lf, af) \<Rightarrow>
               let m1 = m\<lparr>platformLedger := platformLedger m + pf,
                          liquidityLedger := liquidityLedger m + lf,
                          agentLedger := agentLedger m + af,
                          holdings := (holdings m)(sender := holdings m sender - amount),
                          currentSupply := currentSupply m - amount,
                          ethRaised := ethRaised m - gross\<rparr>
               in Inr (m1\<lparr>trades := trades m1 @
                          [\<lparr>isBuy = False, trader = sender, ethAmount = gross - fee,
                            tokenAmount = amount, feeBase = fee, platformFee = pf,
                            liquidityFee = lf, agentFee = af,
                            supplyAfter = currentSupply m1, priceAfter = currentPrice m1\<rparr>]\<rparr>)))"

text \<open>
  Modelled from the spec: the graduation migration of section 4.4 (\<open>BondingCurve.sol\<close> is
  missing). Only the Orchestrator may call it; on a migrated market it is a successful
  no-op; otherwise the market must have graduated, and the accumulated liquidity share
  leaves for the external venue.
\<close>

definition migrate :: "Market \<Rightarrow> address \<Rightarrow> market_error + Market" where
  "migrate m sender =
     (if sender \<noteq> orchestrator m then Inl NotAuthorized
      else if migrated m then Inr m
      else if \<not> graduated m then Inl NotGraduated
      else Inr (m\<lparr>migrated := True, liquidityLedger := 0\<rparr>))"

text \<open>
  Modelled from the spec: the operations on a Market as transactions; a failure leaves the
  state unchanged (section 5).
\<close>

datatype mcall = Buy nat | Sell nat | Migrate

text \<open>Modelled from the spec: the dispatch of a call to the three operations of a Market.\<close>

fun mexec :: "Pricing \<Rightarrow> Market \<Rightarrow> address \<Rightarrow> mcall \<Rightarrow> market_error + Market" where
  "mexec pr m sender (Buy eth) = buy pr m sender eth"
| "mexec pr m sender (Sell amount) = sell pr m sender amount"
| "mexec pr m sender Migrate = migrate m sender"

text \<open>Modelled from the spec: a transaction on a Market; a failed one changes nothing (section 5).\<close>

fun mapply :: "Market \<Rightarrow> Pricing \<times> address \<times> mcall \<Rightarrow> Market" where
  "mapply m (pr, sender, c) = (case mexec pr m sender c of Inl e \<Rightarrow> m | Inr m' \<Rightarrow> m')"

text \<open>Modelled from the spec: transactions on a Market, one after the other (section 5).\<close>

fun mrun :: "Market \<Rightarrow> (Pricing \<times> address \<times> mcall) list \<Rightarrow> Market" where
  "mrun m [] = m"
| "mrun m (t # ts) = mrun (mapply m t) ts"

text \<open>Modelled from the spec: the markets that arise, created and then traded.\<close>

inductive mreachable :: "Market \<Rightarrow> bool" where
  mcreated: "createMarket orch cap slope0 price0 threshold bps = Inr m \<Longrightarrow> mreachable m"
| mtransact: "mreachable m \<Longrightarrow> mreachable (mapply m t)"

text \<open>The fees of a recorded trade add up to its base times the market's summed basis points over 10000.\<close>

definition trade_fees_ok :: "Market \<Rightarrow> Trade \<Rightarrow> bool" where
  "trade_fees_ok m t \<longleftrightarrow>
     platformFee t + liquidityFee t + agentFee t =
       feeBase t * (platformBps m + liquidityBps m + agentBps m) div 10000"

text \<open>The fee split of a market: its three basis-point values.\<close>

definition bpsOf :: "Market \<Rightarrow> nat \<times> nat \<times> nat" where
  "bpsOf m = (platformBps m, liquidityBps m, agentBps m)"

text \<open>
  A market's basis points sum to 10000 and every trade in its log has fees that add up to
  the trade's fee base times the summed basis points over 10000.
\<close>

definition market_inv :: "Market \<Rightarrow> bool" where
  "market_inv m \<longleftrightarrow>
     platformBps m + liquidityBps m + agentBps m = 10000 \<and>
     list_all (trade_fees_ok m) (trades m)"

text \<open>A pricing for the examples: one token per wei, refund one wei per token, a 1% fee portion.\<close>

definition pricing1 :: Pricing where
  "pricing1 = \<lparr>tokensFor = (\<lambda>m eth. eth), refundFor = (\<lambda>m amount. amount),
               feePortion = (\<lambda>m gross. gross div 100)\<rparr>"

text \<open>The market of the orchestrator 99 with cap 1000000, threshold 10000 and the default split.\<close>

definition market0 :: Market where
  "market0 = \<lparr>totalSupplyCap = 1000000, currentSupply = 0, ethRaised = 0, slope = 1,
               basePrice = 5, platformBps = 3000, liquidityBps = 6000, agentBps = 1000,
               graduated = False, graduationThreshold = 10000, migrated = False,
               orchestrator = 99, platformLedger = 0, liquidityLedger = 0,
               agentLedger = 0, holdings = (\<lambda>_. 0), trades = []\<rparr>"

text \<open>The number of transactions of a run at which the \<open>graduated\<close> flag changes its value.\<close>

fun flips :: "Market \<Rightarrow> (Pricing \<times> address \<times> mcall) list \<Rightarrow> nat" where
  "flips m [] = 0"
| "flips m (t # ts) =
     (if graduated (mapply m t) \<noteq> graduated m then 1 else 0) + flips (mapply m t) ts"

text \<open>The market \<open>market0\<close> after a buy of 5 wei and a sale of 200 of 400 tokens bought.\<close>

definition traded0 :: Market where
  "traded0 = mrun market0 [(pricing1, 7, Buy 5), (pricing1, 8, Buy 400), (pricing1, 8, Sell 200)]"

text \<open>The market \<open>market0\<close> after buys of 6000 and 5000 wei, which cross the threshold 10000.\<close>

definition graduated0 :: Market where
  "graduated0 = mrun market0 [(pricing1, 7, Buy 6000), (pricing1, 8, Buy 5000)]"

section \<open>Properties of AgentQuorum\<close>

subsection \<open>The loops of createProposal\<close>

lemma checkDuplicates_None: "checkDuplicates m xs = None \<longleftrightarrow> m \<notin> set xs"
  by (induction xs) auto

lemma checkDuplicates_Some:
  "checkDuplicates m xs = Some e \<longleftrightarrow> m \<in> set xs \<and> e = Revert ''Duplicate quorum member''"
  by (induction xs) auto

lemma checkQuorumMembers_None:
  "checkQuorumMembers v ms = None \<longleftrightarrow> (\<forall>m\<in>set ms. v m) \<and> distinct ms"
  by (induction ms) (auto simp: checkDuplicates_None checkDuplicates_Some split: option.splits)

lemma checkQuorumMembers_Some:
  "checkQuorumMembers v ms = Some e \<Longrightarrow>
     e = Revert ''Invalid quorum member'' \<or> e = Revert ''Duplicate quorum member''"
  by (induction ms) (auto simp: checkDuplicates_Some split: if_splits option.splits)

lemma inQuorum_set: "inQuorum a xs \<longleftrightarrow> a \<in> set xs"
  by (induction xs) auto

lemma checkQuorumMembers_errors:
  "checkQuorumMembers v ms = Some e \<Longrightarrow> e \<in> createProposal_errors"
  by (drule checkQuorumMembers_Some) (auto simp: createProposal_errors_def)

subsection \<open>createProposal\<close>

lemma createProposal_success:
  assumes "createProposal q sender ts n s d ms = Inr (q', pid)"
  shows "createProposal_pre q sender ms \<and>
     pid = proposalCount q \<and>
     q' = q\<lparr>proposalCount := proposalCount q + 1,
            proposals := (proposals q)(pid := (proposals q pid)
               \<lparr>proposalId := pid, proposer := sender, tokenName := n,
                tokenSymbol := s, description := d,
                quorumMembers := ms, createdAt := ts,
                votingDeadline := ts + 604800, status := Active\<rparr>)\<rparr>"
  using assms
  by (auto simp: createProposal_def createProposal_pre_def Let_def MIN_QUORUM_SIZE_def MAX_QUORUM_SIZE_def
      VOTING_PERIOD_def checkQuorumMembers_None inQuorum_set
      split: if_splits option.splits)

lemma createProposal_failure:
  assumes "\<not> createProposal_pre q sender ms"
  shows "\<exists>e\<in>createProposal_errors. createProposal q sender ts n s d ms = Inl e"
proof -
  consider (a) "\<not> verifiedAgents q sender"
    | (b) "verifiedAgents q sender" "\<not> 3 \<le> length ms"
    | (c) "verifiedAgents q sender" "3 \<le> length ms" "\<not> length ms \<le> 5"
    | (d) "verifiedAgents q sender" "3 \<le> length ms" "length ms \<le> 5"
          "\<not> ((\<forall>m\<in>set ms. verifiedAgents q m) \<and> distinct ms)"
    | (e) "verifiedAgents q sender" "3 \<le> length ms" "length ms \<le> 5"
          "(\<forall>m\<in>set ms. verifiedAgents q m) \<and> distinct ms" "sender \<notin> set ms"
    using assms unfolding createProposal_pre_def by blast
  then show ?thesis
  proof cases
    case a
    then show ?thesis by (simp add: createProposal_def createProposal_errors_def)
  next
    case b
    then show ?thesis
      by (simp add: createProposal_def createProposal_errors_def MIN_QUORUM_SIZE_def)
  next
    case c
    then show ?thesis
      by (simp add: createProposal_def createProposal_errors_def MIN_QUORUM_SIZE_def
          MAX_QUORUM_SIZE_def)
  next
    case d
    then obtain e where e: "checkQuorumMembers (verifiedAgents q) ms = Some e"
      using checkQuorumMembers_None [of "verifiedAgents q" ms] by (cases "checkQuorumMembers (verifiedAgents q) ms") auto
    from d e show ?thesis
      by (simp add: createProposal_def MIN_QUORUM_SIZE_def MAX_QUORUM_SIZE_def
          checkQuorumMembers_errors)
  next
    case e
    then have "checkQuorumMembers (verifiedAgents q) ms = None"
      by (simp add: checkQuorumMembers_None)
    with e show ?thesis
      by (simp add: createProposal_def createProposal_errors_def MIN_QUORUM_SIZE_def
          MAX_QUORUM_SIZE_def inQuorum_set)
  qed
qed

lemma createProposal_enabled:
  assumes "createProposal_pre q sender ms" "proposalCount q < MAX_UINT256" "ts + VOTING_PERIOD \<le> MAX_UINT256"
  shows "\<exists>q'. createProposal q sender ts n s d ms = Inr (q', proposalCount q)"
proof -
  have "checkQuorumMembers (verifiedAgents q) ms = None"
    using assms(1) by (simp add: checkQuorumMembers_None createProposal_pre_def)
  with assms show ?thesis
    by (simp add: createProposal_def createProposal_pre_def MIN_QUORUM_SIZE_def
          MAX_QUORUM_SIZE_def inQuorum_set Let_def)
qed

text \<open>
  Claim C6. \<open>createProposal\<close> returns a proposal only to a verified caller that names
  between 3 and 5 pairwise distinct, verified members and is one of them. When one of
  these conditions is violated it reverts with the message of the failed \<open>require\<close>, and
  the transaction leaves the contract's state as it was. When it succeeds the id it returns
  is the old \<open>proposalCount\<close>, the counter is one higher, and the slot of that id holds
  the proposal with status \<open>Active\<close> and a voting deadline 7 days (604800 seconds) after
  the block's timestamp; nothing else in the state changes. With the conditions met it does
  succeed, unless the counter or the deadline would overflow \<open>uint256\<close>.
\<close>

theorem createProposal_validates_and_allocates:
  "(\<forall>q' pid. createProposal q sender ts n s d ms = Inr (q', pid) \<longrightarrow>
      createProposal_pre q sender ms \<and> pid = proposalCount q \<and>
      q' = q\<lparr>proposalCount := proposalCount q + 1,
              proposals := (proposals q)(pid := (proposals q pid)
                \<lparr>proposalId := pid, proposer := sender, tokenName := n, tokenSymbol := s,
                 description := d, quorumMembers := ms, createdAt := ts,
                 votingDeadline := ts + 7 * 24 * 60 * 60, status := Active\<rparr>)\<rparr>) \<and>
   (\<not> createProposal_pre q sender ms \<longrightarrow>
      (\<exists>e\<in>createProposal_errors. createProposal q sender ts n s d ms = Inl e) \<and>
      apply_tx q (sender, ts, CreateProposal n s d ms) = q) \<and>
   (createProposal_pre q sender ms \<and> proposalCount q < MAX_UINT256 \<and>
    ts + VOTING_PERIOD \<le> MAX_UINT256 \<longrightarrow>
      (\<exists>q'. createProposal q sender ts n s d ms = Inr (q', proposalCount q)))"
proof (intro conjI allI impI)
  fix q' pid
  assume ok: "createProposal q sender ts n s d ms = Inr (q', pid)"
  from createProposal_success [OF ok]
  show "createProposal_pre q sender ms" and "pid = proposalCount q"
    and "q' = q\<lparr>proposalCount := proposalCount q + 1,
              proposals := (proposals q)(pid := (proposals q pid)
                \<lparr>proposalId := pid, proposer := sender, tokenName := n, tokenSymbol := s,
                 description := d, quorumMembers := ms, createdAt := ts,
                 votingDeadline := ts + 7 * 24 * 60 * 60, status := Active\<rparr>)\<rparr>"
    by simp_all
next
  assume bad: "\<not> createProposal_pre q sender ms"
  from createProposal_failure [OF bad]
  show e: "\<exists>e\<in>createProposal_errors. createProposal q sender ts n s d ms = Inl e" .
  then show "apply_tx q (sender, ts, CreateProposal n s d ms) = q"
    by auto
next
  assume "createProposal_pre q sender ms \<and> proposalCount q < MAX_UINT256 \<and>
    ts + VOTING_PERIOD \<le> MAX_UINT256"
  then show "\<exists>q'. createProposal q sender ts n s d ms = Inr (q', proposalCount q)"
    using createProposal_enabled by blast
qed

lemma agents3_eq: "agents3 = (constructor 1)\<lparr>verifiedAgents := (\<lambda>a. a = 10 \<or> a = 11 \<or> a = 12)\<rparr>"
  by (auto simp add: agents3_def constructor_def verifyAgent_def fun_eq_iff)

theorem createProposal_validates_and_allocates_witness:
  "createProposal agents3 10 1000 ''Token'' ''TKN'' ''team'' [10, 11, 12]
     = Inr (agents3\<lparr>proposalCount := 1,
              proposals := (proposals agents3)(0 := zeroProposal
                \<lparr>proposalId := 0, proposer := 10, tokenName := ''Token'', tokenSymbol := ''TKN'',
                 description := ''team'', quorumMembers := [10, 11, 12], createdAt := 1000,
                 votingDeadline := 605800, status := Active\<rparr>)\<rparr>, 0) \<and>
   createProposal_pre agents3 10 [10, 11, 12] \<and>
   \<not> createProposal_pre agents3 10 [10, 11] \<and>
   createProposal agents3 10 1000 ''Token'' ''TKN'' ''team'' [10, 11] = Inl (Revert ''Quorum too small'')"
  using createProposal_validates_and_allocates [of agents3 10 1000 "''Token''" "''TKN''" "''team''" "[10, 11, 12]"]
    createProposal_validates_and_allocates [of agents3 10 1000 "''Token''" "''TKN''" "''team''" "[10, 11]"]
  by (simp add: agents3_eq createProposal_def createProposal_pre_def constructor_def
      MIN_QUORUM_SIZE_def MAX_QUORUM_SIZE_def VOTING_PERIOD_def MAX_UINT256_def Let_def)

subsection \<open>What a successful call has checked and written\<close>

lemma castVote_Inr:
  assumes "castVote q sender ts pid v = Inr q'"
  shows "pid < proposalCount q \<and> status (proposals q pid) = Active \<and>
     ts \<le> votingDeadline (proposals q pid) \<and> sender \<in> set (quorumMembers (proposals q pid)) \<and>
     \<not> hasVoted (proposals q pid) sender \<and>
     q' = q\<lparr>proposals := (proposals q)(pid := checkProposalStatus
            ((proposals q pid)\<lparr>hasVoted := (hasVoted (proposals q pid))(sender := True),
               voteChoice := (voteChoice (proposals q pid))(sender := v),
               yesVotes := yesVotes (proposals q pid) + (if v then 1 else 0),
               noVotes := noVotes (proposals q pid) + (if v then 0 else 1)\<rparr>))\<rparr>"
  using assms
  by (cases v) (simp_all add: castVote_def Let_def inQuorum_set split: if_splits)

lemma finalizeProposal_Inr:
  assumes "finalizeProposal q sender ts pid = Inr q'"
  shows "pid < proposalCount q \<and> status (proposals q pid) = Active \<and>
     ts > votingDeadline (proposals q pid) \<and>
     q' = (if yesVotes (proposals q pid) \<noteq> length (quorumMembers (proposals q pid))
           then q\<lparr>proposals := (proposals q)(pid := (proposals q pid)\<lparr>status := Failed\<rparr>)\<rparr>
           else q)"
  using assms
  by (simp add: finalizeProposal_def Let_def split: if_splits)

lemma executeProposal_Inr:
  assumes "executeProposal q sender pid = Inr q'"
  shows "sender = bondingCurveFactory q \<and> status (proposals q pid) = Passed \<and>
     (\<exists>r. increaseReputation (agentReputation q) (quorumMembers (proposals q pid)) = Inr r \<and>
        q' = q\<lparr>proposals := (proposals q)(pid := (proposals q pid)\<lparr>status := Executed\<rparr>),
               agentReputation := r\<rparr>)"
  using assms
  by (simp add: executeProposal_def Let_def split: if_splits sum.splits)

subsection \<open>Every reachable state satisfies the invariant\<close>

lemma length_filter_new:
  assumes "distinct ms" "a \<in> set ms" "\<not> P a" "Q a" "\<And>m. m \<noteq> a \<Longrightarrow> Q m = P m"
  shows "length (filter Q ms) = Suc (length (filter P ms))"
  using assms(1,2)
proof (induction ms)
  case Nil
  then show ?case by simp
next
  case (Cons x xs)
  show ?case
  proof (cases "x = a")
    case True
    with Cons.prems have "a \<notin> set xs" by simp
    then have "\<forall>x\<in>set xs. Q x = P x"
      using assms(5) by metis
    then have "filter Q xs = filter P xs"
      by (simp cong: filter_cong)
    with True assms(3,4) show ?thesis by simp
  next
    case False
    with Cons show ?thesis by (simp add: assms(5))
  qed
qed

lemma length_filter_same:
  assumes "\<not> P a" "\<not> Q a" "\<And>m. m \<noteq> a \<Longrightarrow> Q m = P m"
  shows "length (filter Q ms) = length (filter P ms)"
proof -
  have "\<forall>x\<in>set ms. Q x = P x"
    using assms by metis
  then have "filter Q ms = filter P ms"
    by (simp cong: filter_cong)
  then show ?thesis by simp
qed

lemma created_inv_vote:
  assumes inv: "created_inv p" and act: "status p = Active"
    and mem: "sender \<in> set (quorumMembers p)" and nv: "\<not> hasVoted p sender"
  shows "created_inv (checkProposalStatus
            (p\<lparr>hasVoted := (hasVoted p)(sender := True),
               voteChoice := (voteChoice p)(sender := v),
               yesVotes := yesVotes p + (if v then 1 else 0),
               noVotes := noVotes p + (if v then 0 else 1)\<rparr>))"
proof (cases v)
  case True
  have y: "length (filter (\<lambda>m. ((hasVoted p)(sender := True)) m \<and> ((voteChoice p)(sender := True)) m) (quorumMembers p))
      = Suc (length (yesVoters p))"
    unfolding yesVoters_def
    by (rule length_filter_new [where a = sender]) (use inv mem nv in \<open>auto simp: created_inv_def\<close>)
  have n: "length (filter (\<lambda>m. ((hasVoted p)(sender := True)) m \<and> \<not> ((voteChoice p)(sender := True)) m) (quorumMembers p))
      = length (noVoters p)"
    unfolding noVoters_def
    by (rule length_filter_same [where a = sender]) (use nv in auto)
  from inv act True y n show ?thesis
    by (auto simp: created_inv_def checkProposalStatus_def yesVoters_def noVoters_def)
next
  case False
  have y: "length (filter (\<lambda>m. ((hasVoted p)(sender := True)) m \<and> ((voteChoice p)(sender := False)) m) (quorumMembers p))
      = length (yesVoters p)"
    unfolding yesVoters_def
    by (rule length_filter_same [where a = sender]) (use nv in auto)
  have n: "length (filter (\<lambda>m. ((hasVoted p)(sender := True)) m \<and> \<not> ((voteChoice p)(sender := False)) m) (quorumMembers p))
      = Suc (length (noVoters p))"
    unfolding noVoters_def
    by (rule length_filter_new [where a = sender]) (use inv mem nv in \<open>auto simp: created_inv_def\<close>)
  from inv act False y n show ?thesis
    by (auto simp: created_inv_def checkProposalStatus_def yesVoters_def noVoters_def)
qed

lemma quorum_inv_constructor: "quorum_inv (constructor a)"
  by (simp add: quorum_inv_def constructor_def)

lemma quorum_inv_createProposal:
  assumes "quorum_inv q" "createProposal q sender ts n s d ms = Inr (q', pid)"
  shows "quorum_inv q'"
proof -
  from createProposal_success [OF assms(2)]
  have pre: "createProposal_pre q sender ms" and pid: "pid = proposalCount q"
    and q': "q' = q\<lparr>proposalCount := proposalCount q + 1,
            proposals := (proposals q)(pid := (proposals q pid)
               \<lparr>proposalId := pid, proposer := sender, tokenName := n,
                tokenSymbol := s, description := d,
                quorumMembers := ms, createdAt := ts,
                votingDeadline := ts + 604800, status := Active\<rparr>)\<rparr>"
    by simp_all
  from assms(1) pid have z: "proposals q pid = zeroProposal"
    by (auto simp: quorum_inv_def split: if_splits)
  have new: "created_inv (zeroProposal\<lparr>proposalId := pid, proposer := sender, tokenName := n,
                tokenSymbol := s, description := d,
                quorumMembers := ms, createdAt := ts,
                votingDeadline := ts + 604800, status := Active\<rparr>)"
    using pre by (auto simp: created_inv_def createProposal_pre_def zeroProposal_def
        yesVoters_def noVoters_def)
  show ?thesis
    unfolding quorum_inv_def
  proof
    fix i
    show "if i < proposalCount q' then created_inv (proposals q' i)
          else proposals q' i = zeroProposal"
      using assms(1) new z unfolding q' pid quorum_inv_def
      by (cases "i = proposalCount q") (auto split: if_splits)
  qed
qed

lemma quorum_inv_castVote:
  assumes "quorum_inv q" "castVote q sender ts pid v = Inr q'"
  shows "quorum_inv q'"
proof -
  from castVote_Inr [OF assms(2)]
  have lt: "pid < proposalCount q" and act: "status (proposals q pid) = Active"
    and mem: "sender \<in> set (quorumMembers (proposals q pid))"
    and nv: "\<not> hasVoted (proposals q pid) sender"
    and q': "q' = q\<lparr>proposals := (proposals q)(pid := checkProposalStatus
            ((proposals q pid)\<lparr>hasVoted := (hasVoted (proposals q pid))(sender := True),
               voteChoice := (voteChoice (proposals q pid))(sender := v),
               yesVotes := yesVotes (proposals q pid) + (if v then 1 else 0),
               noVotes := noVotes (proposals q pid) + (if v then 0 else 1)\<rparr>))\<rparr>"
    by simp_all
  from assms(1) lt have "created_inv (proposals q pid)"
    by (auto simp: quorum_inv_def split: if_splits)
  from created_inv_vote [OF this act mem nv, of v] assms(1) lt show ?thesis
    unfolding q' quorum_inv_def by auto
qed

lemma quorum_inv_finalizeProposal:
  assumes "quorum_inv q" "finalizeProposal q sender ts pid = Inr q'"
  shows "quorum_inv q'"
proof -
  from finalizeProposal_Inr [OF assms(2)]
  have lt: "pid < proposalCount q" and act: "status (proposals q pid) = Active"
    and q': "q' = (if yesVotes (proposals q pid) \<noteq> length (quorumMembers (proposals q pid))
           then q\<lparr>proposals := (proposals q)(pid := (proposals q pid)\<lparr>status := Failed\<rparr>)\<rparr>
           else q)"
    by simp_all
  from assms(1) lt have "created_inv (proposals q pid)"
    by (auto simp: quorum_inv_def split: if_splits)
  then have "created_inv ((proposals q pid)\<lparr>status := Failed\<rparr>)"
    using act by (auto simp: created_inv_def yesVoters_def noVoters_def)
  with assms(1) lt show ?thesis
    unfolding q' quorum_inv_def by auto
qed

lemma quorum_inv_executeProposal:
  assumes "quorum_inv q" "executeProposal q sender pid = Inr q'"
  shows "quorum_inv q'"
proof -
  from executeProposal_Inr [OF assms(2)]
  obtain r where st: "status (proposals q pid) = Passed"
    and q': "q' = q\<lparr>proposals := (proposals q)(pid := (proposals q pid)\<lparr>status := Executed\<rparr>),
               agentReputation := r\<rparr>"
    by auto
  from assms(1) st have lt: "pid < proposalCount q"
    by (auto simp: quorum_inv_def zeroProposal_def split: if_splits)
  with assms(1) have "created_inv (proposals q pid)"
    by (auto simp: quorum_inv_def split: if_splits)
  then have "created_inv ((proposals q pid)\<lparr>status := Executed\<rparr>)"
    using st by (auto simp: created_inv_def yesVoters_def noVoters_def)
  with assms(1) lt show ?thesis
    unfolding q' quorum_inv_def by auto
qed

lemma quorum_inv_exec:
  assumes "quorum_inv q" "exec q sender ts c = Inr q'"
  shows "quorum_inv q'"
proof (cases c)
  case (SetBondingCurveFactory f)
  with assms show ?thesis
    by (auto simp: setBondingCurveFactory_def quorum_inv_def split: if_splits)
next
  case (VerifyAgent a)
  with assms show ?thesis
    by (auto simp: verifyAgent_def quorum_inv_def split: if_splits)
next
  case (UnverifyAgent a)
  with assms show ?thesis
    by (auto simp: unverifyAgent_def quorum_inv_def split: if_splits)
next
  case (CreateProposal n s d ms)
  with assms show ?thesis
    by (auto split: sum.splits dest: quorum_inv_createProposal)
next
  case (CastVote pid v)
  with assms show ?thesis by (auto dest: quorum_inv_castVote)
next
  case (FinalizeProposal pid)
  with assms show ?thesis by (auto dest: quorum_inv_finalizeProposal)
next
  case (ExecuteProposal pid)
  with assms show ?thesis by (auto dest: quorum_inv_executeProposal)
qed

lemma quorum_inv_apply_tx: "quorum_inv q \<Longrightarrow> quorum_inv (apply_tx q t)"
  by (cases t) (auto split: sum.splits dest: quorum_inv_exec)

lemma reachable_quorum_inv: "reachable q \<Longrightarrow> quorum_inv q"
  by (induction rule: reachable.induct) (auto simp: quorum_inv_constructor quorum_inv_apply_tx)

lemma reachable_run: "reachable q \<Longrightarrow> reachable (run q ts)"
  by (induction ts arbitrary: q) (auto intro: reachable.transact)

subsection \<open>The status machine\<close>

lemma exec_status_edge:
  assumes inv: "quorum_inv q" and ex: "exec q sender ts c = Inr q'"
  shows "statusOf q' i = statusOf q i \<or> legal_edge (statusOf q i) (statusOf q' i)"
proof (cases c)
  case (SetBondingCurveFactory f)
  with ex show ?thesis
    by (auto simp: setBondingCurveFactory_def statusOf_def split: if_splits)
next
  case (VerifyAgent a)
  with ex show ?thesis
    by (auto simp: verifyAgent_def statusOf_def split: if_splits)
next
  case (UnverifyAgent a)
  with ex show ?thesis
    by (auto simp: unverifyAgent_def statusOf_def split: if_splits)
next
  case (CreateProposal n s d ms)
  with ex obtain pid where cp: "createProposal q sender ts n s d ms = Inr (q', pid)"
    by (auto split: sum.splits)
  from createProposal_success [OF cp]
  have pid: "pid = proposalCount q"
    and q': "q' = q\<lparr>proposalCount := proposalCount q + 1,
            proposals := (proposals q)(pid := (proposals q pid)
               \<lparr>proposalId := pid, proposer := sender, tokenName := n,
                tokenSymbol := s, description := d,
                quorumMembers := ms, createdAt := ts,
                votingDeadline := ts + 604800, status := Active\<rparr>)\<rparr>"
    by simp_all
  from inv pid have "proposals q pid = zeroProposal"
    by (auto simp: quorum_inv_def split: if_splits)
  then have "status (proposals q pid) = Active"
    by (simp add: zeroProposal_def)
  then show ?thesis
    unfolding q' statusOf_def by simp
next
  case (CastVote pid v)
  with ex have cv: "castVote q sender ts pid v = Inr q'" by simp
  from castVote_Inr [OF cv] show ?thesis
    by (auto simp: statusOf_def legal_edge_def checkProposalStatus_def)
next
  case (FinalizeProposal pid)
  with ex have fp: "finalizeProposal q sender ts pid = Inr q'" by simp
  from finalizeProposal_Inr [OF fp] show ?thesis
    by (auto simp: statusOf_def legal_edge_def split: if_splits)
next
  case (ExecuteProposal pid)
  with ex have ep: "executeProposal q sender pid = Inr q'" by simp
  from executeProposal_Inr [OF ep]
  obtain r where st: "status (proposals q pid) = Passed"
    and q': "q' = q\<lparr>proposals := (proposals q)(pid := (proposals q pid)\<lparr>status := Executed\<rparr>),
               agentReputation := r\<rparr>"
    by auto
  show ?thesis
    unfolding q' statusOf_def legal_edge_def using st by (cases "i = pid") simp_all
qed

lemma apply_tx_status_edge:
  assumes "quorum_inv q"
  shows "statusOf (apply_tx q t) i = statusOf q i \<or> legal_edge (statusOf q i) (statusOf (apply_tx q t) i)"
proof (cases t)
  case (fields sender ts c)
  show ?thesis
  proof (cases "exec q sender ts c")
    case (Inl e)
    with fields show ?thesis by simp
  next
    case (Inr q')
    from exec_status_edge [OF assms Inr, of i] fields Inr show ?thesis by simp
  qed
qed

lemma run_terminal:
  assumes "quorum_inv q" "statusOf q i = Failed \<or> statusOf q i = Executed"
  shows "statusOf (run q ts) i = statusOf q i"
  using assms
proof (induction ts arbitrary: q)
  case Nil
  then show ?case by simp
next
  case (Cons t ts)
  from apply_tx_status_edge [OF Cons.prems(1), of t i] Cons.prems(2)
  have same: "statusOf (apply_tx q t) i = statusOf q i"
    by (auto simp: legal_edge_def)
  from Cons.IH [OF quorum_inv_apply_tx [OF Cons.prems(1)], of t] same Cons.prems(2)
  show ?case by simp
qed

lemma run_not_Active:
  assumes "quorum_inv q" "statusOf q i \<noteq> Active"
  shows "statusOf (run q ts) i \<noteq> Active"
  using assms
proof (induction ts arbitrary: q)
  case Nil
  then show ?case by simp
next
  case (Cons t ts)
  from apply_tx_status_edge [OF Cons.prems(1), of t i] Cons.prems(2)
  have "statusOf (apply_tx q t) i \<noteq> Active"
    by (auto simp: legal_edge_def)
  from Cons.IH [OF quorum_inv_apply_tx [OF Cons.prems(1)] this]
  show ?case by simp
qed

text \<open>
  Claim C1. In every state the contract can reach, a transaction (any external function,
  from any sender, at any timestamp) either leaves the status of a proposal as it is or
  moves it along one of the edges Active to Passed, Active to Failed, Passed to Executed.
  A status Failed or Executed is kept under every later sequence of transactions, and a
  status other than Active never becomes Active again.
\<close>

theorem status_transitions:
  assumes "reachable q"
  shows "(statusOf (apply_tx q t) i = statusOf q i \<or>
          legal_edge (statusOf q i) (statusOf (apply_tx q t) i)) \<and>
         (statusOf q i = Failed \<or> statusOf q i = Executed \<longrightarrow>
            statusOf (run q ts) i = statusOf q i) \<and>
         (statusOf q i \<noteq> Active \<longrightarrow> statusOf (run q ts) i \<noteq> Active)"
proof (intro conjI impI)
  note inv = reachable_quorum_inv [OF assms]
  show "statusOf (apply_tx q t) i = statusOf q i \<or>
          legal_edge (statusOf q i) (statusOf (apply_tx q t) i)"
    by (rule apply_tx_status_edge [OF inv])
  show "statusOf (run q ts) i = statusOf q i"
    if "statusOf q i = Failed \<or> statusOf q i = Executed"
    using inv that by (rule run_terminal)
  show "statusOf (run q ts) i \<noteq> Active" if "statusOf q i \<noteq> Active"
    using inv that by (rule run_not_Active)
qed

lemma proposed3_eq:
  "proposed3 = agents3\<lparr>proposalCount := 1,
              proposals := (proposals agents3)(0 := zeroProposal
                \<lparr>proposalId := 0, proposer := 10, tokenName := ''Token'', tokenSymbol := ''TKN'',
                 description := ''team'', quorumMembers := [10, 11, 12], createdAt := 1000,
                 votingDeadline := 605800, status := Active\<rparr>)\<rparr>"
  by (simp add: proposed3_def agents3_eq createProposal_def constructor_def
      MIN_QUORUM_SIZE_def MAX_QUORUM_SIZE_def VOTING_PERIOD_def MAX_UINT256_def Let_def)

lemma passed3_eq:
  "passed3 = agents3\<lparr>proposalCount := 1,
              proposals := (proposals agents3)(0 := zeroProposal
                \<lparr>proposalId := 0, proposer := 10, tokenName := ''Token'', tokenSymbol := ''TKN'',
                 description := ''team'', quorumMembers := [10, 11, 12],
                 hasVoted := (\<lambda>a. a = 10 \<or> a = 11 \<or> a = 12), voteChoice := (\<lambda>a. a = 10 \<or> a = 11 \<or> a = 12),
                 yesVotes := 3,
                 createdAt := 1000,
                 votingDeadline := 605800, status := Passed\<rparr>),
              bondingCurveFactory := 99\<rparr>"
  by (auto simp add: passed3_def proposed3_eq agents3_eq castVote_def constructor_def zeroProposal_def
      checkProposalStatus_def setBondingCurveFactory_def MAX_UINT256_def Let_def fun_eq_iff)

lemma reachable_passed3: "reachable passed3"
  unfolding passed3_def proposed3_def agents3_def
  by (intro reachable_run reachable.transact reachable.deployed)

theorem status_transitions_witness:
  "reachable passed3 \<and> statusOf passed3 0 = Passed \<and>
   statusOf (apply_tx passed3 (99, 3000, ExecuteProposal 0)) 0 = Executed \<and>
   legal_edge Passed Executed \<and>
   statusOf (run (apply_tx passed3 (99, 3000, ExecuteProposal 0))
      [(10, 3001, CastVote 0 False), (5, 700000, FinalizeProposal 0)]) 0 = Executed"
  using status_transitions [OF reachable_passed3, of "(99, 3000, ExecuteProposal 0)" 0 "[]"]
    status_transitions [OF reachable.transact [OF reachable_passed3],
      of "(99, 3000, ExecuteProposal 0)" "(10, 3001, CastVote 0 False)" 0
         "[(10, 3001, CastVote 0 False), (5, 700000, FinalizeProposal 0)]"]
    reachable_passed3
  by (simp add: statusOf_def passed3_eq agents3_eq executeProposal_def constructor_def
      MAX_UINT256_def legal_edge_def)

subsection \<open>finalizeProposal\<close>

lemma twoYes3_eq:
  "twoYes3 = agents3\<lparr>proposalCount := 1,
              proposals := (proposals agents3)(0 := zeroProposal
                \<lparr>proposalId := 0, proposer := 10, tokenName := ''Token'', tokenSymbol := ''TKN'',
                 description := ''team'', quorumMembers := [10, 11, 12],
                 hasVoted := (\<lambda>a. a = 10 \<or> a = 11), voteChoice := (\<lambda>a. a = 10 \<or> a = 11),
                 yesVotes := 2, createdAt := 1000,
                 votingDeadline := 605800, status := Active\<rparr>)\<rparr>"
  by (auto simp add: twoYes3_def proposed3_eq agents3_eq castVote_def constructor_def zeroProposal_def
      checkProposalStatus_def MAX_UINT256_def Let_def fun_eq_iff)

lemma reachable_twoYes3: "reachable twoYes3"
  unfolding twoYes3_def proposed3_def agents3_def
  by (intro reachable_run reachable.transact reachable.deployed)

lemma Active_not_unanimous:
  assumes "quorum_inv q" "pid < proposalCount q" "statusOf q pid = Active"
  shows "yesVotes (proposals q pid) \<noteq> length (quorumMembers (proposals q pid))"
proof -
  from assms(1,2) have "created_inv (proposals q pid)"
    by (auto simp: quorum_inv_def split: if_splits)
  with assms(3) show ?thesis
    by (auto simp: created_inv_def statusOf_def)
qed

text \<open>
  Claim C4. On an existing proposal that is Active and whose deadline has passed,
  \<open>finalizeProposal\<close> succeeds for every sender. It sets the status to Failed when the yes
  counter differs from the number of members, and never to Passed. The state it returns is
  the old state with at most the status of that proposal rewritten: the recorded votes and
  counters are as before. In a reachable state an Active proposal is never unanimous, so
  there the result is always Failed.
\<close>

theorem finalizeProposal_expired:
  assumes "pid < proposalCount q" "statusOf q pid = Active"
    and "ts > votingDeadline (proposals q pid)"
  shows "\<exists>q'. finalizeProposal q sender ts pid = Inr q' \<and>
     (yesVotes (proposals q pid) \<noteq> length (quorumMembers (proposals q pid)) \<longrightarrow>
        statusOf q' pid = Failed) \<and>
     statusOf q' pid \<noteq> Passed \<and>
     q' = q\<lparr>proposals := (proposals q)
            (pid := (proposals q pid)\<lparr>status := statusOf q' pid\<rparr>)\<rparr> \<and>
     (reachable q \<longrightarrow> statusOf q' pid = Failed)"
proof (cases "yesVotes (proposals q pid) \<noteq> length (quorumMembers (proposals q pid))")
  case True
  with assms show ?thesis
    by (simp add: finalizeProposal_def statusOf_def Let_def)
next
  case False
  have "reachable q \<Longrightarrow> False"
    using Active_not_unanimous [OF reachable_quorum_inv assms(1,2)] False by simp
  moreover have "(proposals q pid)\<lparr>status := Active\<rparr> = proposals q pid"
    using assms(2) by (simp add: statusOf_def)
  then have "q\<lparr>proposals := (proposals q)(pid := (proposals q pid)\<lparr>status := Active\<rparr>)\<rparr> = q"
    by simp
  ultimately show ?thesis
    using assms False by (auto simp add: finalizeProposal_def statusOf_def Let_def)
qed

theorem finalizeProposal_expired_witness:
  "0 < proposalCount twoYes3 \<and> statusOf twoYes3 0 = Active \<and>
   700000 > votingDeadline (proposals twoYes3 0) \<and>
   yesVotes (proposals twoYes3 0) = 2 \<and> length (quorumMembers (proposals twoYes3 0)) = 3 \<and>
   reachable twoYes3 \<and>
   statusOf (apply_tx twoYes3 (5, 700000, FinalizeProposal 0)) 0 = Failed \<and>
   yesVotes (proposals (apply_tx twoYes3 (5, 700000, FinalizeProposal 0)) 0) = 2"
  using finalizeProposal_expired [of 0 twoYes3 700000 5] reachable_twoYes3
  by (auto simp add: twoYes3_eq agents3_eq statusOf_def constructor_def zeroProposal_def)

subsection \<open>executeProposal and the reputation counters\<close>

lemma increaseReputation_Inr:
  "increaseReputation r ms = Inr r' \<Longrightarrow> r' a = r a + count_list ms a"
  by (induction ms arbitrary: r) (auto split: if_splits)

lemma count_list_distinct: "distinct ms \<Longrightarrow> count_list ms a = (if a \<in> set ms then 1 else 0)"
  by (induction ms) auto

lemma increaseReputation_enabled:
  assumes "distinct ms" "\<forall>m\<in>set ms. r m < MAX_UINT256"
  shows "\<exists>r'. increaseReputation r ms = Inr r'"
  using assms by (induction ms arbitrary: r) auto

lemma exec_reputation:
  assumes "exec q sender ts c = Inr q'" "\<forall>pid. c \<noteq> ExecuteProposal pid"
  shows "agentReputation q' = agentReputation q"
proof (cases c)
  case (CreateProposal n s d ms)
  with assms(1) obtain pid where "createProposal q sender ts n s d ms = Inr (q', pid)"
    by (auto split: sum.splits)
  from createProposal_success [OF this] show ?thesis by simp
next
  case (CastVote pid v)
  with assms(1) have "castVote q sender ts pid v = Inr q'" by simp
  from castVote_Inr [OF this] show ?thesis by simp
next
  case (FinalizeProposal pid)
  with assms(1) have "finalizeProposal q sender ts pid = Inr q'" by simp
  from finalizeProposal_Inr [OF this] show ?thesis by (simp split: if_splits)
next
  case (ExecuteProposal pid)
  with assms(2) show ?thesis by simp
qed (use assms(1) in \<open>auto simp: setBondingCurveFactory_def verifyAgent_def unverifyAgent_def
      split: if_splits\<close>)

lemma apply_tx_reputation:
  assumes "\<forall>pid. c \<noteq> ExecuteProposal pid"
  shows "agentReputation (apply_tx q (sender, ts, c)) = agentReputation q"
  using exec_reputation [OF _ assms, of q sender ts]
  by (cases "exec q sender ts c") auto

lemma reachable_distinct_members:
  assumes "reachable q"
  shows "distinct (quorumMembers (proposals q pid))"
proof -
  from reachable_quorum_inv [OF assms]
  have "if pid < proposalCount q then created_inv (proposals q pid)
        else proposals q pid = zeroProposal"
    by (simp add: quorum_inv_def)
  then show ?thesis
    by (auto simp: created_inv_def zeroProposal_def split: if_splits)
qed

subsection \<open>The reputation counters never overflow\<close>

lemma finite_executedIds: "finite (executedIds q)"
  by (simp add: executedIds_def)

lemma reputation_inv_exec:
  assumes inv: "quorum_inv q" and r: "reputation_inv q" and ex: "exec q sender ts c = Inr q'"
  shows "reputation_inv q'"
proof (cases c)
  case (SetBondingCurveFactory f)
  with ex have "executedIds q' = executedIds q" "agentReputation q' = agentReputation q"
    "proposalCount q' = proposalCount q"
    by (auto simp: setBondingCurveFactory_def executedIds_def statusOf_def split: if_splits)
  with r show ?thesis by (simp add: reputation_inv_def)
next
  case (VerifyAgent a)
  with ex have "executedIds q' = executedIds q" "agentReputation q' = agentReputation q"
    "proposalCount q' = proposalCount q"
    by (auto simp: verifyAgent_def executedIds_def statusOf_def split: if_splits)
  with r show ?thesis by (simp add: reputation_inv_def)
next
  case (UnverifyAgent a)
  with ex have "executedIds q' = executedIds q" "agentReputation q' = agentReputation q"
    "proposalCount q' = proposalCount q"
    by (auto simp: unverifyAgent_def executedIds_def statusOf_def split: if_splits)
  with r show ?thesis by (simp add: reputation_inv_def)
next
  case (CreateProposal n s d ms)
  with ex obtain pid where cp: "createProposal q sender ts n s d ms = Inr (q', pid)"
    by (auto split: sum.splits)
  from createProposal_success [OF cp]
  have pid: "pid = proposalCount q"
    and q': "q' = q\<lparr>proposalCount := proposalCount q + 1,
            proposals := (proposals q)(pid := (proposals q pid)
               \<lparr>proposalId := pid, proposer := sender, tokenName := n,
                tokenSymbol := s, description := d,
                quorumMembers := ms, createdAt := ts,
                votingDeadline := ts + 604800, status := Active\<rparr>)\<rparr>"
    by simp_all
  have bound: "proposalCount q + 1 \<le> MAX_UINT256"
    using cp by (auto simp: createProposal_def split: if_splits option.splits)
  have "executedIds q' = executedIds q"
    unfolding q' pid executedIds_def statusOf_def by auto
  with r bound show ?thesis
    by (simp add: reputation_inv_def q')
next
  case (CastVote pid v)
  with ex have cv: "castVote q sender ts pid v = Inr q'" by simp
  from castVote_Inr [OF cv]
  have "executedIds q' = executedIds q" "agentReputation q' = agentReputation q"
    "proposalCount q' = proposalCount q"
    by (auto simp: executedIds_def statusOf_def checkProposalStatus_def)
  with r show ?thesis by (simp add: reputation_inv_def)
next
  case (FinalizeProposal pid)
  with ex have fp: "finalizeProposal q sender ts pid = Inr q'" by simp
  from finalizeProposal_Inr [OF fp]
  have "executedIds q' = executedIds q" "agentReputation q' = agentReputation q"
    "proposalCount q' = proposalCount q"
    by (auto simp: executedIds_def statusOf_def split: if_splits)
  with r show ?thesis by (simp add: reputation_inv_def)
next
  case (ExecuteProposal pid)
  with ex have ep: "executeProposal q sender pid = Inr q'" by simp
  from executeProposal_Inr [OF ep]
  obtain rep where st: "status (proposals q pid) = Passed"
    and rep: "increaseReputation (agentReputation q) (quorumMembers (proposals q pid)) = Inr rep"
    and q': "q' = q\<lparr>proposals := (proposals q)(pid := (proposals q pid)\<lparr>status := Executed\<rparr>),
               agentReputation := rep\<rparr>"
    by auto
  from inv st have lt: "pid < proposalCount q"
    by (auto simp: quorum_inv_def zeroProposal_def split: if_splits)
  with inv have "distinct (quorumMembers (proposals q pid))"
    by (auto simp: quorum_inv_def created_inv_def split: if_splits)
  from count_list_distinct [OF this] increaseReputation_Inr [OF rep]
  have le: "rep a \<le> agentReputation q a + 1" for a
    by simp
  have ids: "executedIds q' = insert pid (executedIds q)"
    unfolding q' executedIds_def statusOf_def using lt by auto
  have "pid \<notin> executedIds q"
    using st by (simp add: executedIds_def statusOf_def)
  with ids have "card (executedIds q') = card (executedIds q) + 1"
    by (simp add: finite_executedIds)
  moreover have "rep a \<le> card (executedIds q) + 1" for a
    using le [of a] r by (auto simp: reputation_inv_def intro: order_trans)
  ultimately show ?thesis
    using r by (simp add: reputation_inv_def q')
qed

lemma reachable_reputation_inv: "reachable q \<Longrightarrow> reputation_inv q"
proof (induction rule: reachable.induct)
  case (deployed deployer)
  show ?case by (simp add: reputation_inv_def constructor_def)
next
  case (transact q t)
  obtain sender ts c where t: "t = (sender, ts, c)" by (cases t)
  show ?case
  proof (cases "exec q sender ts c")
    case (Inl e)
    with t transact show ?thesis by simp
  next
    case (Inr q')
    from reputation_inv_exec [OF reachable_quorum_inv [OF transact.hyps] transact.IH Inr] t Inr
    show ?thesis by simp
  qed
qed

lemma reachable_reputation_bound:
  assumes "reachable q" "statusOf q pid = Passed"
  shows "agentReputation q a < MAX_UINT256"
proof -
  from reachable_reputation_inv [OF assms(1)]
  have c: "proposalCount q \<le> MAX_UINT256" and r: "agentReputation q a \<le> card (executedIds q)"
    by (simp_all add: reputation_inv_def)
  from reachable_quorum_inv [OF assms(1)] assms(2) have lt: "pid < proposalCount q"
    by (auto simp: quorum_inv_def zeroProposal_def statusOf_def split: if_splits)
  have "executedIds q \<subseteq> {..<proposalCount q} - {pid}"
    using assms(2) by (auto simp: executedIds_def)
  then have "card (executedIds q) \<le> card ({..<proposalCount q} - {pid})"
    by (intro card_mono) auto
  also have "\<dots> < proposalCount q"
    using lt by simp
  finally show ?thesis using c r by linarith
qed

lemma reachable_executeProposal_enabled:
  assumes "reachable q" "statusOf q pid = Passed"
  shows "\<exists>q'. executeProposal q (bondingCurveFactory q) pid = Inr q'"
proof -
  have "\<forall>m\<in>set (quorumMembers (proposals q pid)). agentReputation q m < MAX_UINT256"
    using reachable_reputation_bound [OF assms] by blast
  from increaseReputation_enabled [OF reachable_distinct_members [OF assms(1)] this]
  obtain r where "increaseReputation (agentReputation q) (quorumMembers (proposals q pid)) = Inr r"
    by blast
  with assms(2) show ?thesis
    by (simp add: executeProposal_def statusOf_def)
qed

text \<open>
  Claim C5. In a reachable state \<open>executeProposal\<close> succeeds exactly when its caller is the
  registered factory and the proposal's status is Passed; any other caller gets the revert
  "Only factory", the factory on another status gets "Proposal not passed", and a reverted
  transaction leaves the state as it was. On success the status is Executed and the
  reputation counter of every member of the proposal is one higher, that of every other
  address unchanged. No other transaction changes any reputation counter.
\<close>

theorem executeProposal_factory_only:
  assumes "reachable q"
  shows "(\<forall>q'. executeProposal q sender pid = Inr q' \<longrightarrow>
            sender = bondingCurveFactory q \<and> statusOf q pid = Passed \<and>
            statusOf q' pid = Executed \<and>
            (\<forall>a. agentReputation q' a = agentReputation q a +
                  (if a \<in> set (quorumMembers (proposals q pid)) then 1 else 0))) \<and>
         (sender \<noteq> bondingCurveFactory q \<longrightarrow>
            executeProposal q sender pid = Inl (Revert ''Only factory'')) \<and>
         (sender = bondingCurveFactory q \<and> statusOf q pid \<noteq> Passed \<longrightarrow>
            executeProposal q sender pid = Inl (Revert ''Proposal not passed'')) \<and>
         (\<forall>e. executeProposal q sender pid = Inl e \<longrightarrow>
            apply_tx q (sender, ts, ExecuteProposal pid) = q) \<and>
         (sender = bondingCurveFactory q \<and> statusOf q pid = Passed \<longrightarrow>
            (\<exists>q'. executeProposal q sender pid = Inr q')) \<and>
         (\<forall>c caller. (\<forall>i. c \<noteq> ExecuteProposal i) \<longrightarrow>
            agentReputation (apply_tx q (caller, ts, c)) = agentReputation q)"
proof (intro conjI allI impI)
  fix q'
  assume ok: "executeProposal q sender pid = Inr q'"
  from executeProposal_Inr [OF ok]
  obtain r where s: "sender = bondingCurveFactory q" and st: "status (proposals q pid) = Passed"
    and r: "increaseReputation (agentReputation q) (quorumMembers (proposals q pid)) = Inr r"
    and q': "q' = q\<lparr>proposals := (proposals q)(pid := (proposals q pid)\<lparr>status := Executed\<rparr>),
               agentReputation := r\<rparr>"
    by auto
  show "sender = bondingCurveFactory q" by (rule s)
  show "statusOf q pid = Passed" using st by (simp add: statusOf_def)
  show "statusOf q' pid = Executed" by (simp add: q' statusOf_def)
  fix a
  show "agentReputation q' a = agentReputation q a +
          (if a \<in> set (quorumMembers (proposals q pid)) then 1 else 0)"
    using increaseReputation_Inr [OF r, of a]
      count_list_distinct [OF reachable_distinct_members [OF assms], of pid a]
    by (simp add: q')
next
  assume "sender \<noteq> bondingCurveFactory q"
  then show "executeProposal q sender pid = Inl (Revert ''Only factory'')"
    by (simp add: executeProposal_def)
next
  assume "sender = bondingCurveFactory q \<and> statusOf q pid \<noteq> Passed"
  then show "executeProposal q sender pid = Inl (Revert ''Proposal not passed'')"
    by (simp add: executeProposal_def statusOf_def)
next
  fix e
  assume "executeProposal q sender pid = Inl e"
  then show "apply_tx q (sender, ts, ExecuteProposal pid) = q" by simp
next
  assume "sender = bondingCurveFactory q \<and> statusOf q pid = Passed"
  with reachable_executeProposal_enabled [OF assms, of pid]
  show "\<exists>q'. executeProposal q sender pid = Inr q'"
    by simp
next
  fix c caller
  assume "\<forall>i. c \<noteq> ExecuteProposal i"
  then show "agentReputation (apply_tx q (caller, ts, c)) = agentReputation q"
    by (rule apply_tx_reputation)
qed

theorem executeProposal_factory_only_witness:
  "reachable passed3 \<and> bondingCurveFactory passed3 = 99 \<and> statusOf passed3 0 = Passed \<and>
   executeProposal passed3 98 0 = Inl (Revert ''Only factory'') \<and>
   executeProposal passed3 99 1 = Inl (Revert ''Proposal not passed'') \<and>
   statusOf (apply_tx passed3 (99, 3000, ExecuteProposal 0)) 0 = Executed \<and>
   map (agentReputation (apply_tx passed3 (99, 3000, ExecuteProposal 0))) [9, 10, 11, 12, 13]
     = [0, 1, 1, 1, 0]"
  using executeProposal_factory_only [OF reachable_passed3, of 99 0 3000]
    executeProposal_factory_only [OF reachable_passed3, of 98 0 3000]
    executeProposal_factory_only [OF reachable_passed3, of 99 1 3000]
    reachable_passed3
  by (simp add: statusOf_def passed3_eq agents3_eq executeProposal_def constructor_def
      MAX_UINT256_def zeroProposal_def)

subsection \<open>castVote\<close>

lemma castVote_enabled:
  assumes "pid < proposalCount q" "statusOf q pid = Active"
    and "ts \<le> votingDeadline (proposals q pid)"
    and "m \<in> set (quorumMembers (proposals q pid))" "\<not> hasVoted (proposals q pid) m"
    and "yesVotes (proposals q pid) < MAX_UINT256" "noVotes (proposals q pid) < MAX_UINT256"
  shows "\<exists>q'. castVote q m ts pid v = Inr q'"
  using assms by (simp add: castVote_def statusOf_def inQuorum_set Let_def)

lemma five_lt_MAX_UINT256: "5 < MAX_UINT256"
  by (simp add: MAX_UINT256_def)

lemma reachable_votes_bounded:
  assumes "reachable q"
  shows "yesVotes (proposals q pid) < MAX_UINT256 \<and> noVotes (proposals q pid) < MAX_UINT256"
proof -
  from reachable_quorum_inv [OF assms]
  have "if pid < proposalCount q then created_inv (proposals q pid)
        else proposals q pid = zeroProposal"
    by (simp add: quorum_inv_def)
  then have "yesVotes (proposals q pid) \<le> length (quorumMembers (proposals q pid)) \<and>
             noVotes (proposals q pid) \<le> length (quorumMembers (proposals q pid)) \<and>
             length (quorumMembers (proposals q pid)) \<le> 5"
    by (auto simp: created_inv_def zeroProposal_def yesVoters_def noVoters_def split: if_splits)
  with five_lt_MAX_UINT256 show ?thesis by linarith
qed

lemma castVote_verifiedAgents:
  "castVote (q\<lparr>verifiedAgents := w\<rparr>) m ts pid v =
     map_sum id (\<lambda>q'. q'\<lparr>verifiedAgents := w\<rparr>) (castVote q m ts pid v)"
  by (simp add: castVote_def Let_def)

lemma revoked3_eq: "revoked3 = twoYes3\<lparr>verifiedAgents := (\<lambda>a. a = 10 \<or> a = 11)\<rparr>"
  by (auto simp add: revoked3_def twoYes3_eq agents3_eq unverifyAgent_def constructor_def fun_eq_iff)

lemma outsider3_eq:
  "outsider3 = twoYes3\<lparr>verifiedAgents := (\<lambda>a. a = 10 \<or> a = 11 \<or> a = 13)\<rparr>"
  by (auto simp add: outsider3_def revoked3_eq twoYes3_eq agents3_eq verifyAgent_def
      constructor_def fun_eq_iff)

lemma reachable_outsider3: "reachable outsider3"
  unfolding outsider3_def revoked3_def
  by (intro reachable.transact reachable_twoYes3)

lemma outsider3_facts:
  "0 < proposalCount outsider3" "statusOf outsider3 0 = Active"
  "2600 \<le> votingDeadline (proposals outsider3 0)"
  "quorumMembers (proposals outsider3 0) = [10, 11, 12]"
  "hasVoted (proposals outsider3 0) 10" "\<not> hasVoted (proposals outsider3 0) 12"
  "\<not> verifiedAgents outsider3 12" "verifiedAgents outsider3 13"
  by (simp_all add: outsider3_eq twoYes3_eq agents3_eq statusOf_def constructor_def
      zeroProposal_def)

lemma castVote_outcome:
  assumes "reachable q" "pid < proposalCount q" "statusOf q pid = Active"
    and "ts \<le> votingDeadline (proposals q pid)"
  shows "castVote q sender ts pid v =
     (if sender \<notin> set (quorumMembers (proposals q pid))
        then Inl (Revert ''Not a quorum member'')
      else if hasVoted (proposals q pid) sender then Inl (Revert ''Already voted'')
      else Inr (q\<lparr>proposals := (proposals q)(pid := checkProposalStatus
             ((proposals q pid)\<lparr>hasVoted := (hasVoted (proposals q pid))(sender := True),
                voteChoice := (voteChoice (proposals q pid))(sender := v),
                yesVotes := yesVotes (proposals q pid) + (if v then 1 else 0),
                noVotes := noVotes (proposals q pid) + (if v then 0 else 1)\<rparr>))\<rparr>))"
proof -
  from reachable_votes_bounded [OF assms(1), of pid]
  have b: "\<not> MAX_UINT256 < Suc (yesVotes (proposals q pid))"
    "\<not> MAX_UINT256 < Suc (noVotes (proposals q pid))"
    by simp_all
  from assms(3) have act: "status (proposals q pid) = Active"
    by (simp add: statusOf_def)
  show ?thesis
  proof (cases v)
    case True
    with assms(2,4) act b show ?thesis
      by (simp add: castVote_def Let_def inQuorum_set)
  next
    case False
    with assms(2,4) act b show ?thesis
      by (simp add: castVote_def Let_def inQuorum_set)
  qed
qed

text \<open>
  Claim C9. In a reachable state, on an existing, Active proposal up to its deadline, what
  \<open>castVote\<close> does is decided by the stored member list and the recorded votes alone. A
  caller that is not in the list is refused with "Not a quorum member", a member that has
  voted with "Already voted", and the vote of a member that has not voted is accepted: the
  state returned has the vote recorded for the caller, the matching counter one higher and
  the status re-evaluated, and nothing else changed. The registry is never read: replacing
  \<open>verifiedAgents\<close> by any other registry changes nothing but that field of the result, so
  a verified outsider is still refused and the vote of a member succeeds in the state the
  admin's \<open>unverifyAgent\<close> of that member leaves.
\<close>

theorem castVote_eligibility_frozen:
  assumes "reachable q" "pid < proposalCount q" "statusOf q pid = Active"
    and "ts \<le> votingDeadline (proposals q pid)"
  shows "castVote q sender ts pid v =
           (if sender \<notin> set (quorumMembers (proposals q pid))
              then Inl (Revert ''Not a quorum member'')
            else if hasVoted (proposals q pid) sender then Inl (Revert ''Already voted'')
            else Inr (q\<lparr>proposals := (proposals q)(pid := checkProposalStatus
                   ((proposals q pid)\<lparr>hasVoted := (hasVoted (proposals q pid))(sender := True),
                      voteChoice := (voteChoice (proposals q pid))(sender := v),
                      yesVotes := yesVotes (proposals q pid) + (if v then 1 else 0),
                      noVotes := noVotes (proposals q pid) + (if v then 0 else 1)\<rparr>))\<rparr>)) \<and>
         (\<forall>w. castVote (q\<lparr>verifiedAgents := w\<rparr>) sender ts pid v =
               map_sum id (\<lambda>q'. q'\<lparr>verifiedAgents := w\<rparr>) (castVote q sender ts pid v)) \<and>
         (\<forall>w. sender \<notin> set (quorumMembers (proposals q pid)) \<longrightarrow>
            castVote (q\<lparr>verifiedAgents := w\<rparr>) sender ts pid v
              = Inl (Revert ''Not a quorum member'')) \<and>
         (sender \<in> set (quorumMembers (proposals q pid)) \<and>
          \<not> hasVoted (proposals q pid) sender \<and> verifiedAgents q sender \<longrightarrow>
            (\<exists>q1 q2. unverifyAgent q (admin q) sender = Inr q1 \<and>
               \<not> verifiedAgents q1 sender \<and>
               castVote q1 sender ts pid v = Inr q2 \<and>
               hasVoted (proposals q2 pid) sender \<and>
               voteChoice (proposals q2 pid) sender = v))"
proof (intro conjI allI impI)
  note out = castVote_outcome [OF assms, of sender v]
  show "castVote q sender ts pid v =
           (if sender \<notin> set (quorumMembers (proposals q pid))
              then Inl (Revert ''Not a quorum member'')
            else if hasVoted (proposals q pid) sender then Inl (Revert ''Already voted'')
            else Inr (q\<lparr>proposals := (proposals q)(pid := checkProposalStatus
                   ((proposals q pid)\<lparr>hasVoted := (hasVoted (proposals q pid))(sender := True),
                      voteChoice := (voteChoice (proposals q pid))(sender := v),
                      yesVotes := yesVotes (proposals q pid) + (if v then 1 else 0),
                      noVotes := noVotes (proposals q pid) + (if v then 0 else 1)\<rparr>))\<rparr>))"
    by (rule out)
  show "castVote (q\<lparr>verifiedAgents := w\<rparr>) sender ts pid v =
          map_sum id (\<lambda>q'. q'\<lparr>verifiedAgents := w\<rparr>) (castVote q sender ts pid v)" for w
    by (rule castVote_verifiedAgents)
  show "castVote (q\<lparr>verifiedAgents := w\<rparr>) sender ts pid v = Inl (Revert ''Not a quorum member'')"
    if "sender \<notin> set (quorumMembers (proposals q pid))" for w
    using out that by (simp add: castVote_verifiedAgents)
  assume h: "sender \<in> set (quorumMembers (proposals q pid)) \<and>
          \<not> hasVoted (proposals q pid) sender \<and> verifiedAgents q sender"
  let ?w = "(verifiedAgents q)(sender := False)"
  let ?q' = "q\<lparr>proposals := (proposals q)(pid := checkProposalStatus
                   ((proposals q pid)\<lparr>hasVoted := (hasVoted (proposals q pid))(sender := True),
                      voteChoice := (voteChoice (proposals q pid))(sender := v),
                      yesVotes := yesVotes (proposals q pid) + (if v then 1 else 0),
                      noVotes := noVotes (proposals q pid) + (if v then 0 else 1)\<rparr>))\<rparr>"
  have u: "unverifyAgent q (admin q) sender = Inr (q\<lparr>verifiedAgents := ?w\<rparr>)"
    using h by (simp add: unverifyAgent_def)
  from out h have "castVote q sender ts pid v = Inr ?q'"
    by simp
  then have c: "castVote (q\<lparr>verifiedAgents := ?w\<rparr>) sender ts pid v
      = Inr (?q'\<lparr>verifiedAgents := ?w\<rparr>)"
    by (simp add: castVote_verifiedAgents)
  have r: "hasVoted (proposals (?q'\<lparr>verifiedAgents := ?w\<rparr>) pid) sender"
    "voteChoice (proposals (?q'\<lparr>verifiedAgents := ?w\<rparr>) pid) sender = v"
    by (simp_all add: checkProposalStatus_def)
  from u c r show "\<exists>q1 q2. unverifyAgent q (admin q) sender = Inr q1 \<and>
               \<not> verifiedAgents q1 sender \<and>
               castVote q1 sender ts pid v = Inr q2 \<and>
               hasVoted (proposals q2 pid) sender \<and>
               voteChoice (proposals q2 pid) sender = v"
    by (intro exI [of _ "q\<lparr>verifiedAgents := ?w\<rparr>"] exI [of _ "?q'\<lparr>verifiedAgents := ?w\<rparr>"])
       simp
qed

theorem castVote_eligibility_frozen_witness:
  "reachable outsider3 \<and> 0 < proposalCount outsider3 \<and> statusOf outsider3 0 = Active \<and>
   2600 \<le> votingDeadline (proposals outsider3 0) \<and>
   quorumMembers (proposals outsider3 0) = [10, 11, 12] \<and>
   \<not> verifiedAgents outsider3 12 \<and> verifiedAgents outsider3 13 \<and>
   castVote outsider3 13 2600 0 True = Inl (Revert ''Not a quorum member'') \<and>
   castVote outsider3 10 2600 0 True = Inl (Revert ''Already voted'') \<and>
   map_sum id (\<lambda>q. (statusOf q 0, hasVoted (proposals q 0) 12, voteChoice (proposals q 0) 12,
       yesVotes (proposals q 0), noVotes (proposals q 0), verifiedAgents q 12))
     (castVote outsider3 12 2600 0 True) = Inr (Passed, True, True, 3, 0, False) \<and>
   unverifyAgent twoYes3 1 12 = Inr revoked3 \<and>
   statusOf (apply_tx revoked3 (12, 2600, CastVote 0 False)) 0 = Failed"
proof -
  note T = castVote_eligibility_frozen [OF reachable_outsider3 outsider3_facts(1,2,3)]
  from T [of 13 True] outsider3_facts
  have a: "castVote outsider3 13 2600 0 True = Inl (Revert ''Not a quorum member'')"
    by simp
  from T [of 10 True] outsider3_facts
  have b: "castVote outsider3 10 2600 0 True = Inl (Revert ''Already voted'')"
    by simp
  from T [of 12 True] outsider3_facts
  have "castVote outsider3 12 2600 0 True =
      Inr (outsider3\<lparr>proposals := (proposals outsider3)(0 := checkProposalStatus
             ((proposals outsider3 0)\<lparr>hasVoted := (hasVoted (proposals outsider3 0))(12 := True),
                voteChoice := (voteChoice (proposals outsider3 0))(12 := True),
                yesVotes := yesVotes (proposals outsider3 0) + 1,
                noVotes := noVotes (proposals outsider3 0) + 0\<rparr>))\<rparr>)"
    by simp
  then have c: "map_sum id (\<lambda>q. (statusOf q 0, hasVoted (proposals q 0) 12,
       voteChoice (proposals q 0) 12, yesVotes (proposals q 0), noVotes (proposals q 0),
       verifiedAgents q 12))
     (castVote outsider3 12 2600 0 True) = Inr (Passed, True, True, 3, 0, False)"
    by (simp add: outsider3_eq twoYes3_eq agents3_eq statusOf_def constructor_def
        zeroProposal_def checkProposalStatus_def)
  have d: "unverifyAgent twoYes3 1 12 = Inr revoked3"
    "statusOf (apply_tx revoked3 (12, 2600, CastVote 0 False)) 0 = Failed"
    by (simp_all add: revoked3_eq twoYes3_eq agents3_eq statusOf_def constructor_def
        zeroProposal_def unverifyAgent_def castVote_def checkProposalStatus_def
        MAX_UINT256_def Let_def fun_eq_iff)
  from reachable_outsider3 outsider3_facts a b c d show ?thesis
    by simp
qed

subsection \<open>Unanimity\<close>

lemma length_filter_all: "length (filter P xs) = length xs \<longleftrightarrow> list_all P xs"
  by (induction xs) (auto simp: le_imp_less_Suc [THEN less_imp_neq] dest: sym)

lemma created_passed_iff:
  assumes "quorum_inv q" "pid < proposalCount q"
  shows "(statusOf q pid = Passed \<or> statusOf q pid = Executed) \<longleftrightarrow> allYes q pid"
proof -
  from assms have "created_inv (proposals q pid)"
    by (auto simp: quorum_inv_def split: if_splits)
  then show ?thesis
    using length_filter_all [of "\<lambda>m. hasVoted (proposals q pid) m \<and> voteChoice (proposals q pid) m"
        "quorumMembers (proposals q pid)"]
    by (simp add: created_inv_def yesVoters_def allYes_def statusOf_def)
qed

lemma created_inv_Active:
  assumes "created_inv p" "status p = Active"
  shows "noVotes p = 0" and "noVoters p = []"
  using assms by (auto simp: created_inv_def)

lemma castVote_no_fails:
  assumes "castVote q sender ts pid False = Inr q'"
  shows "statusOf q' pid = Failed"
  using castVote_Inr [OF assms] by (simp add: statusOf_def checkProposalStatus_def)

lemma castVote_yes_step:
  assumes inv: "quorum_inv q" and cv: "castVote q m ts pid True = Inr q'"
  shows "unvoted q' pid = unvoted q pid - {m} \<and> proposalCount q' = proposalCount q \<and>
     votingDeadline (proposals q' pid) = votingDeadline (proposals q pid) \<and>
     (statusOf q' pid = Active \<or> statusOf q' pid = Passed)"
proof -
  from castVote_Inr [OF cv]
  have lt: "pid < proposalCount q" and act: "status (proposals q pid) = Active"
    and q': "q' = q\<lparr>proposals := (proposals q)(pid := checkProposalStatus
            ((proposals q pid)\<lparr>hasVoted := (hasVoted (proposals q pid))(m := True),
               voteChoice := (voteChoice (proposals q pid))(m := True),
               yesVotes := yesVotes (proposals q pid) + (if True then 1 else 0),
               noVotes := noVotes (proposals q pid) + (if True then 0 else 1)\<rparr>))\<rparr>"
    by simp_all
  from inv lt have "created_inv (proposals q pid)"
    by (auto simp: quorum_inv_def split: if_splits)
  then have "noVotes (proposals q pid) = 0"
    using act by (rule created_inv_Active)
  with act show ?thesis
    unfolding q' by (auto simp: unvoted_def statusOf_def checkProposalStatus_def)
qed

lemma allYes_unvoted: "allYes q pid \<Longrightarrow> unvoted q pid = {}"
  by (auto simp: allYes_def unvoted_def list_all_iff)

lemma Active_all_voted_yes:
  assumes "quorum_inv q" "pid < proposalCount q" "statusOf q pid = Active" "unvoted q pid = {}"
  shows False
proof -
  from assms(1,2) have ci: "created_inv (proposals q pid)"
    by (auto simp: quorum_inv_def split: if_splits)
  moreover from assms(3) have "status (proposals q pid) = Active"
    by (simp add: statusOf_def)
  ultimately have "noVoters (proposals q pid) = []"
    by (rule created_inv_Active)
  then have "\<forall>m\<in>set (quorumMembers (proposals q pid)).
      \<not> (hasVoted (proposals q pid) m \<and> \<not> voteChoice (proposals q pid) m)"
    by (simp add: noVoters_def filter_empty_conv)
  with assms(4) have "allYes q pid"
    by (auto simp: allYes_def unvoted_def list_all_iff)
  with created_passed_iff [OF assms(1,2)] assms(3) show False by simp
qed

lemma voteYes_passes:
  assumes "quorum_inv q" "pid < proposalCount q" "statusOf q pid = Active"
    and "ts \<le> votingDeadline (proposals q pid)"
    and "distinct vs" "set vs = unvoted q pid"
    and "yesVotes (proposals q pid) + length vs < MAX_UINT256"
  shows "\<exists>q'. voteYes q ts pid vs = Inr q' \<and> statusOf q' pid = Passed"
  using assms
proof (induction vs arbitrary: q)
  case Nil
  with Active_all_voted_yes [of q pid] show ?case by simp
next
  case (Cons m vs)
  from Cons.prems(6) have m: "m \<in> set (quorumMembers (proposals q pid))"
    "\<not> hasVoted (proposals q pid) m"
    by (auto simp: unvoted_def)
  from Cons.prems(1,2) have ci: "created_inv (proposals q pid)"
    by (auto simp: quorum_inv_def split: if_splits)
  moreover from Cons.prems(3) have "status (proposals q pid) = Active"
    by (simp add: statusOf_def)
  ultimately have "noVotes (proposals q pid) = 0"
    by (rule created_inv_Active)
  with castVote_enabled [OF Cons.prems(2,3,4) m, of True] Cons.prems(7) five_lt_MAX_UINT256
  obtain q1 where cv: "castVote q m ts pid True = Inr q1"
    by auto
  have inv1: "quorum_inv q1"
    by (rule quorum_inv_castVote [OF Cons.prems(1) cv])
  from castVote_yes_step [OF Cons.prems(1) cv]
  have un: "unvoted q1 pid = unvoted q pid - {m}" and pc: "proposalCount q1 = proposalCount q"
    and dl: "votingDeadline (proposals q1 pid) = votingDeadline (proposals q pid)"
    and st: "statusOf q1 pid = Active \<or> statusOf q1 pid = Passed"
    by simp_all
  from un Cons.prems(5,6) have set1: "set vs = unvoted q1 pid"
    by auto
  show ?case
  proof (cases vs)
    case Nil
    with set1 have "unvoted q1 pid = {}" by simp
    with Active_all_voted_yes [OF inv1, of pid] pc Cons.prems(2) st
    have "statusOf q1 pid = Passed" by auto
    with cv Nil show ?thesis by simp
  next
    case (Cons m' vs')
    with set1 have "unvoted q1 pid \<noteq> {}" by auto
    with allYes_unvoted [of q1 pid] have "\<not> allYes q1 pid" by blast
    with created_passed_iff [OF inv1, of pid] pc Cons.prems(2) st
    have act1: "statusOf q1 pid = Active" by auto
    from castVote_Inr [OF cv] Cons.prems(3)
    have "yesVotes (proposals q1 pid) \<le> yesVotes (proposals q pid) + 1"
      by (auto simp: checkProposalStatus_def)
    with Cons.prems(7) have b: "yesVotes (proposals q1 pid) + length vs < MAX_UINT256"
      by simp
    from Cons.IH [OF inv1 _ act1 _ _ set1 b] pc Cons.prems(2,4,5) dl
    obtain q' where "voteYes q1 ts pid vs = Inr q'" "statusOf q' pid = Passed"
      by auto
    with cv show ?thesis by simp
  qed
qed

lemma reachable_member_count:
  assumes "reachable q" "pid < proposalCount q"
  shows "3 \<le> length (quorumMembers (proposals q pid)) \<and> length (quorumMembers (proposals q pid)) \<le> 5"
  using reachable_quorum_inv [OF assms(1)] assms(2)
  by (auto simp: quorum_inv_def created_inv_def split: if_splits)

lemma unvoted_card:
  assumes "distinct vs" "set vs = unvoted q pid"
  shows "length vs \<le> length (quorumMembers (proposals q pid))"
proof -
  have "card (set vs) \<le> card (set (quorumMembers (proposals q pid)))"
    unfolding assms(2) unvoted_def by (intro card_mono) auto
  also have "\<dots> \<le> length (quorumMembers (proposals q pid))"
    by (rule card_length)
  finally show ?thesis using assms(1) by (simp add: distinct_card)
qed

lemma reachable_proposed3: "reachable proposed3"
  unfolding proposed3_def agents3_def
  by (intro reachable_run reachable.transact reachable.deployed)

lemma proposed3_facts:
  "0 < proposalCount proposed3" "statusOf proposed3 0 = Active"
  "2000 \<le> votingDeadline (proposals proposed3 0)"
  "set [12, 10, 11] = unvoted proposed3 0" "length (quorumMembers (proposals proposed3 0)) = 3"
  "\<not> allYes proposed3 0"
  by (auto simp add: proposed3_eq agents3_eq statusOf_def constructor_def zeroProposal_def
      unvoted_def allYes_def)

lemma proposed3_votes:
  "map_sum id (\<lambda>q. statusOf q 0) (voteYes proposed3 2000 0 [12, 10]) = Inr Active"
  "map_sum id (\<lambda>q. statusOf q 0) (castVote proposed3 11 2000 0 False) = Inr Failed"
  "statusOf (run proposed3 [(11, 2000, CastVote 0 True), (12, 2001, CastVote 0 False)]) 0 = Failed"
  by (simp_all add: proposed3_eq agents3_eq statusOf_def constructor_def zeroProposal_def
      castVote_def checkProposalStatus_def MAX_UINT256_def Let_def)

text \<open>
  Claim C2. In every reachable state an existing proposal has between 3 and 5 members, and
  its status is Passed (or, after the launch, Executed) exactly when every member has a
  recorded yes vote. Votes are recorded only up to the deadline and only for members. While
  the proposal is Active and the deadline has not passed, the members that have not voted
  can vote yes in any order, and the last of these votes makes the status Passed. A no vote
  of a member that has not voted is accepted whatever the number of members still to vote,
  and every accepted no vote leaves the status Failed.
\<close>

theorem unanimous_yes_passes_any_no_fails:
  assumes "reachable q" "pid < proposalCount q"
  shows "3 \<le> length (quorumMembers (proposals q pid)) \<and>
         length (quorumMembers (proposals q pid)) \<le> 5 \<and>
         ((statusOf q pid = Passed \<or> statusOf q pid = Executed) \<longleftrightarrow> allYes q pid) \<and>
         (\<forall>sender ts v q'. castVote q sender ts pid v = Inr q' \<longrightarrow>
            ts \<le> votingDeadline (proposals q pid) \<and>
            sender \<in> set (quorumMembers (proposals q pid)) \<and>
            (\<not> v \<longrightarrow> statusOf q' pid = Failed)) \<and>
         (\<forall>ts vs. statusOf q pid = Active \<and> ts \<le> votingDeadline (proposals q pid) \<and>
            distinct vs \<and> set vs = unvoted q pid \<longrightarrow>
            (\<exists>q'. voteYes q ts pid vs = Inr q' \<and> statusOf q' pid = Passed)) \<and>
         (\<forall>ts m. statusOf q pid = Active \<and> ts \<le> votingDeadline (proposals q pid) \<and>
            m \<in> unvoted q pid \<longrightarrow>
            (\<exists>q'. castVote q m ts pid False = Inr q' \<and> statusOf q' pid = Failed))"
proof -
  note inv = reachable_quorum_inv [OF assms(1)]
  have size: "3 \<le> length (quorumMembers (proposals q pid)) \<and>
         length (quorumMembers (proposals q pid)) \<le> 5"
    by (rule reachable_member_count [OF assms])
  have iff: "(statusOf q pid = Passed \<or> statusOf q pid = Executed) \<longleftrightarrow> allYes q pid"
    by (rule created_passed_iff [OF inv assms(2)])
  have rec: "ts \<le> votingDeadline (proposals q pid) \<and>
            sender \<in> set (quorumMembers (proposals q pid)) \<and>
            (\<not> v \<longrightarrow> statusOf q' pid = Failed)"
    if cv: "castVote q sender ts pid v = Inr q'" for sender ts v q'
  proof -
    from castVote_Inr [OF cv]
    have a: "ts \<le> votingDeadline (proposals q pid)"
      and b: "sender \<in> set (quorumMembers (proposals q pid))"
      by blast+
    have "statusOf q' pid = Failed" if "\<not> v"
    proof -
      from that cv have "castVote q sender ts pid False = Inr q'" by simp
      then show ?thesis by (rule castVote_no_fails)
    qed
    with a b show ?thesis by blast
  qed
  have yes: "\<exists>q'. voteYes q ts pid vs = Inr q' \<and> statusOf q' pid = Passed"
    if h: "statusOf q pid = Active \<and> ts \<le> votingDeadline (proposals q pid) \<and>
            distinct vs \<and> set vs = unvoted q pid" for ts vs
  proof -
    from h unvoted_card [of vs q pid] size
    have "length vs \<le> 5" by simp
    moreover from reachable_quorum_inv [OF assms(1)] assms(2)
    have "yesVotes (proposals q pid) \<le> 5"
      by (auto simp: quorum_inv_def created_inv_def yesVoters_def split: if_splits
          intro: order_trans [OF length_filter_le])
    moreover have "(10::nat) < MAX_UINT256"
      by (simp add: MAX_UINT256_def)
    ultimately have "yesVotes (proposals q pid) + length vs < MAX_UINT256"
      by linarith
    with voteYes_passes [OF inv assms(2), of ts vs] h show ?thesis by simp
  qed
  have no: "\<exists>q'. castVote q m ts pid False = Inr q' \<and> statusOf q' pid = Failed"
    if h: "statusOf q pid = Active \<and> ts \<le> votingDeadline (proposals q pid) \<and>
            m \<in> unvoted q pid" for ts m
  proof -
    from h have "m \<in> set (quorumMembers (proposals q pid))" "\<not> hasVoted (proposals q pid) m"
      by (simp_all add: unvoted_def)
    with castVote_enabled [OF assms(2), of ts m False] h reachable_votes_bounded [OF assms(1), of pid]
    obtain q' where "castVote q m ts pid False = Inr q'" by auto
    with castVote_no_fails [OF this] show ?thesis by simp
  qed
  show ?thesis
  proof (intro conjI allI impI)
    show "3 \<le> length (quorumMembers (proposals q pid))"
      and "length (quorumMembers (proposals q pid)) \<le> 5"
      using size by simp_all
    show "(statusOf q pid = Passed \<or> statusOf q pid = Executed) \<longleftrightarrow> allYes q pid"
      by (rule iff)
  next
    fix sender ts v q'
    assume cv: "castVote q sender ts pid v = Inr q'"
    from rec [OF cv] show "ts \<le> votingDeadline (proposals q pid)"
      and "sender \<in> set (quorumMembers (proposals q pid))"
      by simp_all
    assume "\<not> v"
    with rec [OF cv] show "statusOf q' pid = Failed" by simp
  next
    fix ts vs
    assume "statusOf q pid = Active \<and> ts \<le> votingDeadline (proposals q pid) \<and>
            distinct vs \<and> set vs = unvoted q pid"
    then show "\<exists>q'. voteYes q ts pid vs = Inr q' \<and> statusOf q' pid = Passed"
      by (rule yes)
  next
    fix ts m
    assume "statusOf q pid = Active \<and> ts \<le> votingDeadline (proposals q pid) \<and>
            m \<in> unvoted q pid"
    then show "\<exists>q'. castVote q m ts pid False = Inr q' \<and> statusOf q' pid = Failed"
      by (rule no)
  qed
qed

theorem unanimous_yes_passes_any_no_fails_witness:
  "reachable proposed3 \<and> 0 < proposalCount proposed3 \<and>
   length (quorumMembers (proposals proposed3 0)) = 3 \<and>
   statusOf proposed3 0 = Active \<and> 2000 \<le> votingDeadline (proposals proposed3 0) \<and>
   distinct [12, 10, 11 :: nat] \<and> set [12, 10, 11] = unvoted proposed3 0 \<and>
   map_sum id (\<lambda>q. statusOf q 0) (voteYes proposed3 2000 0 [12, 10, 11]) = Inr Passed \<and>
   map_sum id (\<lambda>q. statusOf q 0) (voteYes proposed3 2000 0 [12, 10]) = Inr Active \<and>
   map_sum id (\<lambda>q. statusOf q 0) (castVote proposed3 11 2000 0 False) = Inr Failed \<and>
   statusOf (run proposed3 [(11, 2000, CastVote 0 True), (12, 2001, CastVote 0 False)]) 0 = Failed \<and>
   \<not> allYes proposed3 0"
proof -
  note T = unanimous_yes_passes_any_no_fails [OF reachable_proposed3 proposed3_facts(1)]
  have d: "distinct [12, 10, 11 :: nat]" by simp
  from T have "\<forall>ts vs. statusOf proposed3 0 = Active \<and> ts \<le> votingDeadline (proposals proposed3 0) \<and>
            distinct vs \<and> set vs = unvoted proposed3 0 \<longrightarrow>
            (\<exists>q'. voteYes proposed3 ts 0 vs = Inr q' \<and> statusOf q' 0 = Passed)"
    by blast
  with proposed3_facts(2,3,4) d
  have "\<exists>q'. voteYes proposed3 2000 0 [12, 10, 11] = Inr q' \<and> statusOf q' 0 = Passed"
    by blast
  then have "map_sum id (\<lambda>q. statusOf q 0) (voteYes proposed3 2000 0 [12, 10, 11]) = Inr Passed"
    by auto
  with reachable_proposed3 proposed3_facts proposed3_votes d show ?thesis
    by blast
qed

section \<open>Properties of the launch\<close>

lemma Passed_exists:
  assumes "quorum_inv q" "statusOf q pid \<noteq> Active"
  shows "pid < proposalCount q"
  using assms by (auto simp: quorum_inv_def statusOf_def zeroProposal_def split: if_splits)

lemma launchToken_Inr:
  assumes "launchToken create w sender pid = Inr (w', token)"
  shows "pid < proposalCount (quorum w) \<and> statusOf (quorum w) pid = Passed \<and>
     proposalToToken (factory w) pid = 0 \<and>
     create (launchArgs w pid) = Inr token \<and>
     (\<exists>q'. executeProposal (quorum w) (factoryAddress w) pid = Inr q' \<and>
        w' = w\<lparr>quorum := q',
               factory := (factory w)
                 \<lparr>proposalToToken := (proposalToToken (factory w))(pid := token),
                  allTokens := allTokens (factory w) @ [token]\<rparr>,
               deployedTokens := deployedTokens w @ [(token, launchArgs w pid)]\<rparr>)"
  using assms
  by (auto simp: launchToken_def getProposal_def statusOf_def Let_def launchArgs_def
      split: if_splits sum.splits)

lemma argProposalId_launchArgs: "argProposalId (launchArgs w pid) = pid"
  by (simp add: launchArgs_def)

lemma apply_tx_Executed:
  assumes "quorum_inv q" "statusOf q i = Executed"
  shows "statusOf (apply_tx q t) i = Executed"
  using run_terminal [OF assms(1), of i "[t]"] assms(2) by simp

lemma world_inv_quorum_call:
  assumes "world_inv w" "exec (quorum w) sender ts c = Inr q'"
  shows "world_inv (w\<lparr>quorum := q'\<rparr>)"
proof -
  from assms(2) have q': "q' = apply_tx (quorum w) (sender, ts, c)" by simp
  from assms(1) have inv: "quorum_inv (quorum w)" by (simp add: world_inv_def)
  have "statusOf q' pid = Executed" if "statusOf (quorum w) pid = Executed" for pid
    unfolding q' using inv that by (rule apply_tx_Executed)
  moreover have "quorum_inv q'"
    by (rule quorum_inv_exec [OF inv assms(2)])
  ultimately show ?thesis
    using assms(1) by (simp add: world_inv_def marketsOf_def)
qed

lemma world_inv_launchToken:
  assumes "world_inv w" "launchToken create w sender pid = Inr (w', token)"
  shows "world_inv w'"
proof -
  from assms(1) have inv: "quorum_inv (quorum w)" by (simp add: world_inv_def)
  from launchToken_Inr [OF assms(2)]
  obtain q' where st: "statusOf (quorum w) pid = Passed"
    and ex: "executeProposal (quorum w) (factoryAddress w) pid = Inr q'"
    and w': "w' = w\<lparr>quorum := q',
               factory := (factory w)
                 \<lparr>proposalToToken := (proposalToToken (factory w))(pid := token),
                  allTokens := allTokens (factory w) @ [token]\<rparr>,
               deployedTokens := deployedTokens w @ [(token, launchArgs w pid)]\<rparr>"
    by blast
  note args = argProposalId_launchArgs [of w pid]
  have q': "q' = apply_tx (quorum w) (factoryAddress w, 0, ExecuteProposal pid)"
    using ex by simp
  have inv': "quorum_inv q'"
    by (rule quorum_inv_executeProposal [OF inv ex])
  have new: "statusOf q' pid = Executed"
    using executeProposal_Inr [OF ex] by (auto simp: statusOf_def)
  from assms(1) st have none: "marketsOf w pid = []"
    by (auto simp: world_inv_def)
  have "length (marketsOf w' i) \<le> 1 \<and> (marketsOf w' i \<noteq> [] \<longrightarrow> statusOf q' i = Executed) \<and>
      (proposalToToken (factory w') i \<noteq> 0 \<longrightarrow> statusOf q' i = Executed)" for i
  proof (cases "i = pid")
    case True
    with none args new show ?thesis
      by (simp add: w' marketsOf_def)
  next
    case False
    have "statusOf q' i = Executed" if "statusOf (quorum w) i = Executed"
      unfolding q' using inv that by (rule apply_tx_Executed)
    with False args assms(1) show ?thesis
      by (simp add: w' marketsOf_def world_inv_def)
  qed
  with inv' show ?thesis
    by (simp add: world_inv_def w')
qed

lemma world_inv_wexec:
  assumes "world_inv w" "wexec create w sender ts c = Inr w'"
  shows "world_inv w'"
proof (cases c)
  case (QuorumCall qc)
  with assms show ?thesis
    by (auto split: sum.splits dest: world_inv_quorum_call)
next
  case (LaunchToken pid)
  with assms show ?thesis
    by (auto split: sum.splits dest: world_inv_launchToken)
next
  case (UpdatePlatformFeeRecipient a)
  with assms show ?thesis
    by (auto simp: world_inv_def marketsOf_def updatePlatformFeeRecipient_def
        split: sum.splits if_splits)
next
  case (UpdateUniswapRouter a)
  with assms show ?thesis
    by (auto simp: world_inv_def marketsOf_def updateUniswapRouter_def
        split: sum.splits if_splits)
qed

lemma world_inv_wapply: "world_inv w \<Longrightarrow> world_inv (wapply w t)"
  by (cases t) (auto split: sum.splits dest: world_inv_wexec)

lemma wreachable_world_inv: "wreachable w \<Longrightarrow> world_inv w"
proof (induction rule: wreachable.induct)
  case (wdeployed q sender qa fee router f fa)
  then show ?case
    by (auto simp: world_inv_def marketsOf_def reachable_quorum_inv factoryConstructor_def
        split: if_splits)
next
  case (wtransact w t)
  then show ?case by (simp add: world_inv_wapply)
qed

lemma wreachable_wrun: "wreachable w \<Longrightarrow> wreachable (wrun w ts)"
  by (induction ts arbitrary: w) (auto intro: wreachable.wtransact)

subsection \<open>One launch per proposal\<close>

lemma wapply_deployedTokens:
  "set (deployedTokens w) \<subseteq> set (deployedTokens (wapply w t))"
proof (cases t)
  case (fields create sender ts c)
  show ?thesis
  proof (cases c)
    case (LaunchToken pid)
    show ?thesis
    proof (cases "launchToken create w sender pid")
      case (Inl e)
      with fields LaunchToken show ?thesis by simp
    next
      case (Inr r)
      then obtain w' token where "launchToken create w sender pid = Inr (w', token)"
        by (cases r) simp
      with launchToken_Inr [OF this] fields LaunchToken show ?thesis by auto
    qed
  qed (use fields in \<open>auto split: sum.splits\<close>)
qed

lemma wrun_deployedTokens:
  "set (deployedTokens w) \<subseteq> set (deployedTokens (wrun w ts))"
proof (induction ts arbitrary: w)
  case Nil
  show ?case by simp
next
  case (Cons t ts)
  from wapply_deployedTokens [of w t] Cons [of "wapply w t"] show ?case by auto
qed

lemma marketsOf_wrun:
  assumes "marketsOf w pid \<noteq> []"
  shows "marketsOf (wrun w ts) pid \<noteq> []"
proof -
  from assms obtain token args where x: "(token, args) \<in> set (deployedTokens w)"
    and pid: "argProposalId args = pid"
    by (auto simp: marketsOf_def filter_empty_conv)
  from x wrun_deployedTokens [of w ts]
  have "(token, args) \<in> set (deployedTokens (wrun w ts))" by blast
  with pid have "(token, args) \<in> set (marketsOf (wrun w ts) pid)"
    by (simp add: marketsOf_def)
  then show ?thesis by auto
qed

lemma launchToken_not_Passed:
  assumes "statusOf (quorum w) pid \<noteq> Passed"
  shows "\<exists>e. launchToken create w sender pid = Inl e"
  using assms by (simp add: launchToken_def getProposal_def statusOf_def)

lemma wapply_quorum:
  "quorum (wapply w t) = quorum w \<or> (\<exists>t'. quorum (wapply w t) = apply_tx (quorum w) t')"
proof (cases t)
  case (fields create sender ts c)
  show ?thesis
  proof (cases c)
    case (QuorumCall qc)
    have "quorum (wapply w t) = apply_tx (quorum w) (sender, ts, qc)"
      using fields QuorumCall by (auto split: sum.splits)
    then show ?thesis by blast
  next
    case (LaunchToken i)
    show ?thesis
    proof (cases "launchToken create w sender i")
      case (Inl e)
      with fields LaunchToken show ?thesis by simp
    next
      case (Inr r)
      then obtain w' tok where ok: "launchToken create w sender i = Inr (w', tok)"
        by (cases r) simp
      from launchToken_Inr [OF ok]
      obtain q' where "executeProposal (quorum w) (factoryAddress w) i = Inr q'"
        and "quorum w' = q'"
        by auto
      then have "quorum w' = apply_tx (quorum w) (factoryAddress w, 0, ExecuteProposal i)"
        by simp
      moreover have "wapply w t = w'"
        using fields LaunchToken ok by simp
      ultimately show ?thesis by blast
    qed
  next
    case (UpdatePlatformFeeRecipient a)
    with fields show ?thesis by (auto split: sum.splits)
  next
    case (UpdateUniswapRouter a)
    with fields show ?thesis by (auto split: sum.splits)
  qed
qed

lemma wapply_Executed:
  assumes "world_inv w" "statusOf (quorum w) pid = Executed"
  shows "statusOf (quorum (wapply w t)) pid = Executed"
proof -
  from assms(1) have inv: "quorum_inv (quorum w)"
    by (simp add: world_inv_def)
  from wapply_quorum [of w t] show ?thesis
  proof
    assume "quorum (wapply w t) = quorum w"
    with assms(2) show ?thesis by simp
  next
    assume "\<exists>t'. quorum (wapply w t) = apply_tx (quorum w) t'"
    then obtain t' where "quorum (wapply w t) = apply_tx (quorum w) t'" ..
    with apply_tx_Executed [OF inv assms(2), of t'] show ?thesis by simp
  qed
qed

lemma wrun_Executed:
  assumes "world_inv w" "statusOf (quorum w) pid = Executed"
  shows "statusOf (quorum (wrun w ts)) pid = Executed"
  using assms
proof (induction ts arbitrary: w)
  case Nil
  then show ?case by simp
next
  case (Cons t ts)
  from Cons.IH [OF world_inv_wapply [OF Cons.prems(1)] wapply_Executed [OF Cons.prems]]
  show ?case by simp
qed

lemma wrun_world_inv: "world_inv w \<Longrightarrow> world_inv (wrun w ts)"
  by (induction ts arbitrary: w) (simp_all add: world_inv_wapply)

lemma launchToken_Executed:
  assumes "quorum_inv (quorum w)" "statusOf (quorum w) pid = Executed"
  shows "launchToken create w sender pid = Inl (Revert ''Proposal not passed'')"
proof -
  from Passed_exists [OF assms(1), of pid] assms(2) have "pid < proposalCount (quorum w)"
    by simp
  with assms(2) show ?thesis
    by (simp add: launchToken_def getProposal_def statusOf_def)
qed

lemma relaunch_not_passed:
  assumes "wreachable w"
    and "marketsOf w pid \<noteq> [] \<or> proposalToToken (factory w) pid \<noteq> 0"
  shows "launchToken create (wrun w ts) sender pid = Inl (Revert ''Proposal not passed'')"
proof -
  note inv = wreachable_world_inv [OF assms(1)]
  from inv assms(2) have "statusOf (quorum w) pid = Executed"
    by (auto simp: world_inv_def)
  from wrun_Executed [OF inv this, of ts]
  have ex: "statusOf (quorum (wrun w ts)) pid = Executed" .
  from wrun_world_inv [OF inv, of ts] have "quorum_inv (quorum (wrun w ts))"
    by (simp add: world_inv_def)
  then show ?thesis using ex by (rule launchToken_Executed)
qed

lemma Passed_unlaunched:
  assumes "wreachable w" "statusOf (quorum w) pid = Passed"
  shows "proposalToToken (factory w) pid = 0 \<and> marketsOf w pid = []"
proof -
  from wreachable_world_inv [OF assms(1)]
  have "marketsOf w pid \<noteq> [] \<longrightarrow> statusOf (quorum w) pid = Executed"
    and "proposalToToken (factory w) pid \<noteq> 0 \<longrightarrow> statusOf (quorum w) pid = Executed"
    by (simp_all add: world_inv_def)
  with assms(2) show ?thesis by auto
qed

lemma linked3_wreachable: "wreachable linked3"
  unfolding linked3_def
  by (rule wreachable.wdeployed [OF reachable_passed3, of 1 50 60 70])
     (simp add: factoryConstructor_def factory0_def)

lemma launched3_wreachable: "wreachable launched3"
  unfolding launched3_def by (rule wreachable.wtransact [OF linked3_wreachable])

lemma linked3_launch:
  "launchToken create500 linked3 7 0 =
     Inr (linked3\<lparr>quorum := apply_tx passed3 (99, 3000, ExecuteProposal 0),
          factory := factory0\<lparr>proposalToToken := (\<lambda>_. 0)(0 := 500), allTokens := [500]\<rparr>,
          deployedTokens := [(500, launchArgs linked3 0)]\<rparr>, 500)"
  by (simp add: launchToken_def getProposal_def linked3_def factory0_def create500_def
      passed3_eq agents3_eq constructor_def zeroProposal_def executeProposal_def
      launchArgs_def MAX_UINT256_def Let_def)

lemma launched3_eq:
  "launched3 = linked3\<lparr>quorum := apply_tx passed3 (99, 3000, ExecuteProposal 0),
          factory := factory0\<lparr>proposalToToken := (\<lambda>_. 0)(0 := 500), allTokens := [500]\<rparr>,
          deployedTokens := [(500, launchArgs linked3 0)]\<rparr>"
  by (simp add: launched3_def linked3_launch)

lemma linked3_facts:
  "statusOf (quorum linked3) 0 = Passed" "proposalToToken (factory linked3) 0 = 0"
  "bondingCurveFactory (quorum linked3) = factoryAddress linked3"
  "create500 (launchArgs linked3 0) = Inr 500"
  by (simp_all add: linked3_def factory0_def passed3_eq agents3_eq statusOf_def
      constructor_def zeroProposal_def create500_def)

lemma launched3_facts:
  "statusOf (quorum launched3) 0 = Executed" "proposalToToken (factory launched3) 0 = 500"
  "marketsOf launched3 0 = [(500, launchArgs linked3 0)]"
  "launchToken create500 launched3 8 0 = Inl (Revert ''Proposal not passed'')"
  by (simp_all add: launched3_eq linked3_def factory0_def passed3_eq agents3_eq statusOf_def
      constructor_def zeroProposal_def executeProposal_def MAX_UINT256_def marketsOf_def
      launchArgs_def launchToken_def getProposal_def)

lemma linked3_refusals:
  "marketsOf linked3 0 = []"
  "launchToken create500 linked3 7 1 = Inl (Revert ''Proposal does not exist'')"
  by (simp_all add: linked3_def factory0_def passed3_eq agents3_eq statusOf_def
      constructor_def zeroProposal_def marketsOf_def launchToken_def getProposal_def)

text \<open>
  Claim C3, as the code has it. \<open>launchToken\<close> returns a token only when the proposal's
  status is Passed and \<open>proposalToToken\<close> holds no token for the id, and on any other status
  it reverts. When it succeeds, the token contract is created with the proposal's id, the
  id is linked to the token and the proposal is Executed, all in the state the call
  returns; when it reverts, the transaction leaves the ledger as it was, with no token
  created, no link and the status unchanged. On every reachable ledger a proposal has at
  most one token contract, and a passed proposal has no token and no link: the link is
  written only by the call that makes the status Executed, and the status is checked
  first. So once a proposal has a token or a link, \<open>launchToken\<close> for that id reverts
  after any further transactions, and the revert is "Proposal not passed".
\<close>

theorem launchToken_atomic_once:
  "(\<forall>w' token. launchToken create w sender pid = Inr (w', token) \<longrightarrow>
      statusOf (quorum w) pid = Passed \<and> proposalToToken (factory w) pid = 0 \<and>
      statusOf (quorum w') pid = Executed \<and> proposalToToken (factory w') pid = token \<and>
      allTokens (factory w') = allTokens (factory w) @ [token] \<and>
      deployedTokens w' = deployedTokens w @ [(token, launchArgs w pid)] \<and>
      wapply w (create, sender, ts, LaunchToken pid) = w') \<and>
   (statusOf (quorum w) pid \<noteq> Passed \<longrightarrow> (\<exists>e. launchToken create w sender pid = Inl e)) \<and>
   (\<forall>e. launchToken create w sender pid = Inl e \<longrightarrow>
      wapply w (create, sender, ts, LaunchToken pid) = w) \<and>
   (wreachable w \<longrightarrow>
      length (marketsOf w pid) \<le> 1 \<and>
      (statusOf (quorum w) pid = Passed \<longrightarrow>
         proposalToToken (factory w) pid = 0 \<and> marketsOf w pid = []) \<and>
      (marketsOf w pid \<noteq> [] \<or> proposalToToken (factory w) pid \<noteq> 0 \<longrightarrow>
         (\<forall>txs. launchToken create (wrun w txs) sender pid
                  = Inl (Revert ''Proposal not passed''))))"
proof (intro conjI allI impI)
  fix w' token
  assume ok: "launchToken create w sender pid = Inr (w', token)"
  from launchToken_Inr [OF ok]
  obtain q' where st: "statusOf (quorum w) pid = Passed"
    and no: "proposalToToken (factory w) pid = 0"
    and ex: "executeProposal (quorum w) (factoryAddress w) pid = Inr q'"
    and w': "w' = w\<lparr>quorum := q',
               factory := (factory w)
                 \<lparr>proposalToToken := (proposalToToken (factory w))(pid := token),
                  allTokens := allTokens (factory w) @ [token]\<rparr>,
               deployedTokens := deployedTokens w @ [(token, launchArgs w pid)]\<rparr>"
    by blast
  show "statusOf (quorum w) pid = Passed" by (rule st)
  show "proposalToToken (factory w) pid = 0" by (rule no)
  show "statusOf (quorum w') pid = Executed"
    using executeProposal_Inr [OF ex] by (auto simp: w' statusOf_def)
  show "proposalToToken (factory w') pid = token" by (simp add: w')
  show "allTokens (factory w') = allTokens (factory w) @ [token]" by (simp add: w')
  show "deployedTokens w' = deployedTokens w @ [(token, launchArgs w pid)]" by (simp add: w')
  show "wapply w (create, sender, ts, LaunchToken pid) = w'" using ok by simp
next
  assume "statusOf (quorum w) pid \<noteq> Passed"
  then show "\<exists>e. launchToken create w sender pid = Inl e"
    by (rule launchToken_not_Passed)
next
  fix e
  assume "launchToken create w sender pid = Inl e"
  then show "wapply w (create, sender, ts, LaunchToken pid) = w" by simp
next
  assume "wreachable w"
  from wreachable_world_inv [OF this] show "length (marketsOf w pid) \<le> 1"
    by (simp add: world_inv_def)
next
  assume "wreachable w" "statusOf (quorum w) pid = Passed"
  from Passed_unlaunched [OF this]
  show "proposalToToken (factory w) pid = 0" and "marketsOf w pid = []"
    by simp_all
next
  fix txs
  assume "wreachable w" "marketsOf w pid \<noteq> [] \<or> proposalToToken (factory w) pid \<noteq> 0"
  then show "launchToken create (wrun w txs) sender pid = Inl (Revert ''Proposal not passed'')"
    by (rule relaunch_not_passed)
qed

theorem launchToken_atomic_once_witness:
  "wreachable linked3 \<and> statusOf (quorum linked3) 0 = Passed \<and>
   proposalToToken (factory linked3) 0 = 0 \<and> marketsOf linked3 0 = [] \<and>
   launchToken create500 linked3 7 0 = Inr (launched3, 500) \<and>
   wreachable launched3 \<and>
   statusOf (quorum launched3) 0 = Executed \<and> proposalToToken (factory launched3) 0 = 500 \<and>
   marketsOf launched3 0 = [(500, launchArgs linked3 0)] \<and>
   launchToken create500 launched3 8 0 = Inl (Revert ''Proposal not passed'') \<and>
   launchToken create500 (wrun launched3 later3) 8 0 = Inl (Revert ''Proposal not passed'') \<and>
   launchToken create500 linked3 7 1 = Inl (Revert ''Proposal does not exist'') \<and>
   wapply linked3 (create500, 7, 3000, LaunchToken 1) = linked3"
proof -
  have c: "launchToken create500 linked3 7 0 = Inr (launched3, 500)"
    by (simp add: launched3_eq linked3_launch)
  from launchToken_atomic_once [of create500 linked3 7 0 3000] c
  have a: "statusOf (quorum launched3) 0 = Executed"
    "proposalToToken (factory launched3) 0 = 500"
    by blast+
  from launchToken_atomic_once [of create500 launched3 8 0 3000] launched3_wreachable a(2)
  have "\<forall>txs. launchToken create500 (wrun launched3 txs) 8 0
      = Inl (Revert ''Proposal not passed'')"
    by simp
  then have b: "launchToken create500 (wrun launched3 later3) 8 0
      = Inl (Revert ''Proposal not passed'')"
    by blast
  from launchToken_atomic_once [of create500 linked3 7 1 3000] linked3_refusals(2)
  have d: "wapply linked3 (create500, 7, 3000, LaunchToken 1) = linked3"
    by blast
  from a b c d linked3_wreachable launched3_wreachable linked3_facts launched3_facts
    linked3_refusals
  show ?thesis by simp
qed

text \<open>
  The claim as stated names the already-launched error for a second launch. On the ledger
  \<open>launched3\<close>, where the token of proposal 0 exists and is linked, a second launch
  reverts with "Proposal not passed" instead.
\<close>

theorem launchToken_relaunch_counterexample:
  "wreachable launched3 \<and> marketsOf launched3 0 = [(500, launchArgs linked3 0)] \<and>
   proposalToToken (factory launched3) 0 = 500 \<and>
   launchToken create500 launched3 8 0 = Inl (Revert ''Proposal not passed'') \<and>
   launchToken create500 launched3 8 0 \<noteq> Inl (Revert ''Already launched'')"
  using launched3_wreachable launched3_facts by simp

subsection \<open>The caller of launchToken\<close>

lemma launchToken_sender: "launchToken create w sender pid = launchToken create w sender' pid"
  by (simp add: launchToken_def)

lemma wreachable_quorum:
  assumes "wreachable w"
  shows "reachable (quorum w)"
  using assms
proof (induction rule: wreachable.induct)
  case (wdeployed q sender qa fee router f fa)
  then show ?case by simp
next
  case (wtransact w t)
  obtain create sender ts c where t: "t = (create, sender, ts, c)"
    by (cases t)
  show ?case
  proof (cases c)
    case (QuorumCall qc)
    have "quorum (wapply w t) = apply_tx (quorum w) (sender, ts, qc)"
      using t QuorumCall by (auto split: sum.splits)
    moreover have "reachable (apply_tx (quorum w) (sender, ts, qc))"
      using wtransact.IH by (rule reachable.transact)
    ultimately show ?thesis by (simp only:)
  next
    case (LaunchToken i)
    show ?thesis
    proof (cases "launchToken create w sender i")
      case (Inl e)
      with t LaunchToken wtransact.IH show ?thesis by simp
    next
      case (Inr r)
      then obtain w' tok where ok: "launchToken create w sender i = Inr (w', tok)"
        by (cases r) simp
      from launchToken_Inr [OF ok]
      obtain q' where "executeProposal (quorum w) (factoryAddress w) i = Inr q'"
        and "quorum w' = q'"
        by auto
      then have "quorum w' = apply_tx (quorum w) (factoryAddress w, 0, ExecuteProposal i)"
        by simp
      moreover have "reachable (apply_tx (quorum w) (factoryAddress w, 0, ExecuteProposal i))"
        using wtransact.IH by (rule reachable.transact)
      ultimately have "reachable (quorum w')"
        by (simp only:)
      with t LaunchToken ok show ?thesis by simp
    qed
  next
    case (UpdatePlatformFeeRecipient a)
    with t wtransact.IH show ?thesis by (auto split: sum.splits)
  next
    case (UpdateUniswapRouter a)
    with t wtransact.IH show ?thesis by (auto split: sum.splits)
  qed
qed

lemma launchToken_enabled:
  assumes "wreachable w" "statusOf (quorum w) pid = Passed" "proposalToToken (factory w) pid = 0"
    and "bondingCurveFactory (quorum w) = factoryAddress w"
    and "create (launchArgs w pid) = Inr token"
  shows "\<exists>w'. launchToken create w sender pid = Inr (w', token)"
proof -
  from wreachable_world_inv [OF assms(1)] have inv: "quorum_inv (quorum w)"
    by (simp add: world_inv_def)
  from Passed_exists [OF inv, of pid] assms(2) have lt: "pid < proposalCount (quorum w)"
    by simp
  have "reachable (quorum w)"
    by (rule wreachable_quorum [OF assms(1)])
  from reachable_executeProposal_enabled [OF this assms(2)] assms(4)
  obtain q' where "executeProposal (quorum w) (factoryAddress w) pid = Inr q'"
    by auto
  with lt assms(2,3,5) show ?thesis
    by (simp add: launchToken_def getProposal_def statusOf_def launchArgs_def Let_def)
qed

lemma launchToken_unlinked:
  assumes "bondingCurveFactory (quorum w) \<noteq> factoryAddress w"
  shows "\<exists>e. launchToken create w sender pid = Inl e"
proof -
  from assms have "executeProposal (quorum w) (factoryAddress w) pid = Inl (Revert ''Only factory'')"
    by (simp add: executeProposal_def)
  then show ?thesis
    by (simp add: launchToken_def Let_def split: sum.splits)
qed

text \<open>
  Claim C10, as the code has it. The result of \<open>launchToken\<close> is the same for every caller.
  On a reachable ledger it succeeds, for every caller, whenever the proposal's status is
  Passed, no token is recorded for the id, the token's constructor does not revert, and the
  factory is the address registered in the quorum contract; when the factory is not the
  registered address it reverts for every caller, because the only authorization check on
  the path is the one of \<open>executeProposal\<close>.
\<close>

theorem launchToken_any_caller:
  "launchToken create w sender pid = launchToken create w sender' pid \<and>
   (wreachable w \<and> statusOf (quorum w) pid = Passed \<and> proposalToToken (factory w) pid = 0 \<and>
    bondingCurveFactory (quorum w) = factoryAddress w \<and>
    create (launchArgs w pid) = Inr token \<longrightarrow>
      (\<exists>w'. launchToken create w sender pid = Inr (w', token))) \<and>
   (bondingCurveFactory (quorum w) \<noteq> factoryAddress w \<longrightarrow>
      (\<exists>e. launchToken create w sender pid = Inl e))"
proof (intro conjI impI)
  show "launchToken create w sender pid = launchToken create w sender' pid"
    by (rule launchToken_sender)
next
  assume "wreachable w \<and> statusOf (quorum w) pid = Passed \<and>
    proposalToToken (factory w) pid = 0 \<and>
    bondingCurveFactory (quorum w) = factoryAddress w \<and>
    create (launchArgs w pid) = Inr token"
  then show "\<exists>w'. launchToken create w sender pid = Inr (w', token)"
    using launchToken_enabled [of w pid create token sender] by blast
next
  assume "bondingCurveFactory (quorum w) \<noteq> factoryAddress w"
  then show "\<exists>e. launchToken create w sender pid = Inl e"
    by (rule launchToken_unlinked)
qed

theorem launchToken_any_caller_witness:
  "wreachable linked3 \<and> statusOf (quorum linked3) 0 = Passed \<and>
   proposalToToken (factory linked3) 0 = 0 \<and>
   bondingCurveFactory (quorum linked3) = factoryAddress linked3 \<and>
   create500 (launchArgs linked3 0) = Inr 500 \<and>
   launchToken create500 linked3 12345 0 = launchToken create500 linked3 1 0 \<and>
   map_sum id snd (launchToken create500 linked3 12345 0) = Inr 500"
proof -
  from launchToken_any_caller [of create500 linked3 12345 0 1 500] linked3_wreachable linked3_facts
  have "launchToken create500 linked3 12345 0 = launchToken create500 linked3 1 0"
    and "\<exists>w'. launchToken create500 linked3 12345 0 = Inr (w', 500)"
    by blast+
  then have "launchToken create500 linked3 12345 0 = launchToken create500 linked3 1 0"
    and "map_sum id snd (launchToken create500 linked3 12345 0) = Inr 500"
    by auto
  with linked3_wreachable linked3_facts show ?thesis by simp
qed

text \<open>
  The claim as stated fails where the factory is not registered: the proposal has passed
  and no token is recorded, yet the launch reverts, for any caller.
\<close>

theorem launchToken_unregistered_counterexample:
  "statusOf (quorum unlinked3) 0 = Passed \<and> proposalToToken (factory unlinked3) 0 = 0 \<and>
   wreachable unlinked3 \<and>
   launchToken create500 unlinked3 10 0 = Inl (Revert ''Only factory'')"
proof -
  have eq: "unregistered3 = agents3\<lparr>proposalCount := 1,
              proposals := (proposals agents3)(0 := zeroProposal
                \<lparr>proposalId := 0, proposer := 10, tokenName := ''Token'', tokenSymbol := ''TKN'',
                 description := ''team'', quorumMembers := [10, 11, 12],
                 hasVoted := (\<lambda>a. a = 10 \<or> a = 11 \<or> a = 12),
                 voteChoice := (\<lambda>a. a = 10 \<or> a = 11 \<or> a = 12),
                 yesVotes := 3, createdAt := 1000,
                 votingDeadline := 605800, status := Passed\<rparr>)\<rparr>"
    by (auto simp add: unregistered3_def proposed3_eq agents3_eq castVote_def constructor_def
        zeroProposal_def checkProposalStatus_def MAX_UINT256_def Let_def fun_eq_iff)
  have "reachable unregistered3"
    unfolding unregistered3_def by (intro reachable_run reachable_proposed3)
  then have "wreachable unlinked3"
    unfolding unlinked3_def
    by (rule wreachable.wdeployed [where sender = 1 and qa = 50 and fee = 60 and router = 70])
       (simp add: factoryConstructor_def factory0_def)
  moreover have "statusOf (quorum unlinked3) 0 = Passed"
    "proposalToToken (factory unlinked3) 0 = 0"
    "launchToken create500 unlinked3 10 0 = Inl (Revert ''Only factory'')"
    by (simp_all add: unlinked3_def eq factory0_def agents3_eq statusOf_def constructor_def
        zeroProposal_def launchToken_def getProposal_def executeProposal_def create500_def
        Let_def)
  ultimately show ?thesis by simp
qed


section \<open>Properties of the Curve Market\<close>

lemma div_superadd: "(x::nat) div c + y div c \<le> (x + y) div c"
proof (cases "c = 0")
  case True
  then show ?thesis by simp
next
  case False
  have "(x div c + y div c) * c = x div c * c + y div c * c"
    by (simp add: algebra_simps)
  also have "\<dots> \<le> x + y"
    by (intro add_mono) simp_all
  finally show ?thesis
    using False by (simp add: less_eq_div_iff_mult_less_eq)
qed

lemma splitFee_sum:
  assumes "splitFee m base = (pf, lf, af)"
    and "platformBps m + liquidityBps m + agentBps m = 10000"
  shows "pf + lf + af = base * (platformBps m + liquidityBps m + agentBps m) div 10000"
    and "pf + lf + af = base"
    and "lf = base * liquidityBps m div 10000" and "af = base * agentBps m div 10000"
    and "base * platformBps m div 10000 \<le> pf"
proof -
  from assms(1) have pf: "pf = base - lf - af" and lf: "lf = base * liquidityBps m div 10000"
    and af: "af = base * agentBps m div 10000"
    by (auto simp add: splitFee_def Let_def)
  have "base * platformBps m div 10000 + lf + af
      \<le> (base * platformBps m + base * liquidityBps m) div 10000 + af"
    unfolding lf by (intro add_right_mono div_superadd)
  also have "\<dots> \<le> (base * platformBps m + base * liquidityBps m + base * agentBps m) div 10000"
    unfolding af by (rule div_superadd)
  also have "\<dots> = base * (platformBps m + liquidityBps m + agentBps m) div 10000"
    by (simp add: algebra_simps)
  also have "\<dots> = base"
    by (simp add: assms(2))
  finally have le: "base * platformBps m div 10000 + lf + af \<le> base" .
  with pf show sum: "pf + lf + af = base" by simp
  then show "pf + lf + af = base * (platformBps m + liquidityBps m + agentBps m) div 10000"
    by (simp add: assms(2))
  from le pf show "base * platformBps m div 10000 \<le> pf" by simp
  show "lf = base * liquidityBps m div 10000" by (rule lf)
  show "af = base * agentBps m div 10000" by (rule af)
qed

lemma createMarket_Inr:
  assumes "createMarket orch cap s p0 th bps = Inr m"
  shows "bpsOf m = (case bps of None \<Rightarrow> defaultBps | Some b \<Rightarrow> b) \<and>
     platformBps m + liquidityBps m + agentBps m = 10000 \<and> trades m = [] \<and>
     \<not> graduated m \<and> \<not> migrated m"
  using assms
  by (auto simp: createMarket_def bpsOf_def split: prod.splits if_splits option.splits)

lemma trade_fees_ok_cong:
  "bpsOf m' = bpsOf m \<Longrightarrow> trade_fees_ok m' t = trade_fees_ok m t"
  by (simp add: trade_fees_ok_def bpsOf_def)

lemma buy_Inr:
  assumes "buy pr m sender eth = Inr m'"
  shows "\<not> graduated m \<and> bpsOf m' = bpsOf m \<and> migrated m' = migrated m \<and>
     ethRaised m' = ethRaised m + eth \<and>
     graduationThreshold m' = graduationThreshold m \<and>
     graduated m' = (ethRaised m + eth \<ge> graduationThreshold m) \<and>
     (\<exists>t. trades m' = trades m @ [t] \<and> feeBase t = eth \<and>
        (platformFee t, liquidityFee t, agentFee t) = splitFee m eth)"
  using assms
  by (auto simp: buy_def Let_def bpsOf_def split: if_splits prod.splits)

lemma sell_Inr:
  assumes "sell pr m sender amount = Inr m'"
  shows "\<not> graduated m \<and> bpsOf m' = bpsOf m \<and> migrated m' = migrated m \<and>
     graduated m' = graduated m \<and>
     (\<exists>t. trades m' = trades m @ [t] \<and>
        feeBase t = feePortion pr m (refundFor pr m amount) \<and>
        (platformFee t, liquidityFee t, agentFee t) = splitFee m (feeBase t))"
  using assms
  by (auto simp: sell_def Let_def bpsOf_def split: if_splits prod.splits)

lemma migrate_Inr:
  assumes "migrate m sender = Inr m'"
  shows "sender = orchestrator m \<and> bpsOf m' = bpsOf m \<and> trades m' = trades m \<and>
     graduated m' = graduated m \<and> migrated m' \<and> orchestrator m' = orchestrator m \<and>
     (migrated m \<longrightarrow> m' = m) \<and> (\<not> migrated m \<longrightarrow> graduated m)"
  using assms
  by (auto simp: migrate_def bpsOf_def split: if_splits)

lemma mexec_bps:
  assumes "mexec pr m sender c = Inr m'"
  shows "bpsOf m' = bpsOf m"
  using assms buy_Inr sell_Inr migrate_Inr by (cases c) auto

lemma mapply_bps: "bpsOf (mapply m t) = bpsOf m"
proof (cases t)
  case (fields pr sender c)
  then show ?thesis
    using mexec_bps [of pr m sender c] by (cases "mexec pr m sender c") auto
qed

lemma mrun_bps: "bpsOf (mrun m ts) = bpsOf m"
  by (induction ts arbitrary: m) (simp_all add: mapply_bps)

lemma split_trade_ok:
  assumes "(platformFee t, liquidityFee t, agentFee t) = splitFee m (feeBase t)"
    and "platformBps m + liquidityBps m + agentBps m = 10000"
  shows "trade_fees_ok m t"
  using splitFee_sum(1) [OF assms(1) [symmetric] assms(2)] by (simp add: trade_fees_ok_def)

lemma market_inv_mexec:
  assumes inv: "market_inv m" and ex: "mexec pr m sender c = Inr m'"
  shows "market_inv m'"
proof -
  note bps = mexec_bps [OF ex]
  have all: "list_all (trade_fees_ok m) (trades m')"
  proof (cases c)
    case (Buy eth)
    with ex have "buy pr m sender eth = Inr m'" by simp
    from buy_Inr [OF this] obtain t where "trades m' = trades m @ [t]"
      and "feeBase t = eth" and "(platformFee t, liquidityFee t, agentFee t) = splitFee m eth"
      by auto
    with inv split_trade_ok [of t m] show ?thesis
      by (simp add: market_inv_def)
  next
    case (Sell amount)
    with ex have "sell pr m sender amount = Inr m'" by simp
    from sell_Inr [OF this] obtain t where "trades m' = trades m @ [t]"
      and "(platformFee t, liquidityFee t, agentFee t) = splitFee m (feeBase t)"
      by auto
    with inv split_trade_ok [of t m] show ?thesis
      by (simp add: market_inv_def)
  next
    case Migrate
    with ex have "migrate m sender = Inr m'" by simp
    from migrate_Inr [OF this] inv show ?thesis
      by (simp add: market_inv_def)
  qed
  have "trade_fees_ok m' = trade_fees_ok m"
    using trade_fees_ok_cong [OF bps] by (simp add: fun_eq_iff)
  with all inv bps show ?thesis
    by (simp add: market_inv_def bpsOf_def)
qed

lemma market_inv_mapply: "market_inv m \<Longrightarrow> market_inv (mapply m t)"
  by (cases t) (auto split: sum.splits dest: market_inv_mexec)

lemma mreachable_market_inv: "mreachable m \<Longrightarrow> market_inv m"
proof (induction rule: mreachable.induct)
  case (mcreated orch cap slope0 price0 threshold bps m)
  from createMarket_Inr [OF this] show ?case
    by (simp add: market_inv_def)
next
  case (mtransact m t)
  from mtransact.IH show ?case by (rule market_inv_mapply)
qed

lemma mreachable_mrun: "mreachable m \<Longrightarrow> mreachable (mrun m ts)"
  by (induction ts arbitrary: m) (auto intro: mreachable.mtransact)

subsection \<open>The fee split\<close>

lemma market0_created: "createMarket 99 1000000 1 5 10000 None = Inr market0"
  by (simp add: createMarket_def defaultBps_def market0_def)

lemma market0_mreachable: "mreachable market0"
  by (rule mreachable.mcreated [OF market0_created])

lemma traded0_trades:
  "map (\<lambda>t. (feeBase t, platformFee t, liquidityFee t, agentFee t)) (trades traded0) =
     [(5, 2, 3, 0), (400, 120, 240, 40), (2, 1, 1, 0)]"
  by (simp add: traded0_def market0_def pricing1_def buy_def sell_def splitFee_def Let_def
      currentPrice_def)

text \<open>
  Claim C7, on the Curve Market as the specification describes it. A market is created only
  with basis points that sum to 10000, the defaults being 3000 for the platform, 6000 for
  liquidity and 1000 for the agents; no sequence of buys, sells and migrations changes
  them. In every market that arises, each recorded trade has platform, liquidity and agent
  fees that add up, in natural numbers, to the trade's fee base times the summed basis
  points divided by 10000, which is the fee base itself.
\<close>

theorem fee_split_sums:
  "(\<forall>m0. createMarket orch cap s p0 th bps = Inr m0 \<longrightarrow>
      bpsOf m0 = (case bps of None \<Rightarrow> (3000, 6000, 1000) | Some b \<Rightarrow> b) \<and>
      platformBps m0 + liquidityBps m0 + agentBps m0 = 10000) \<and>
   bpsOf (mrun m ts) = bpsOf m \<and>
   (mreachable m \<longrightarrow>
      platformBps m + liquidityBps m + agentBps m = 10000 \<and>
      (\<forall>t\<in>set (trades m).
         platformFee t + liquidityFee t + agentFee t =
           feeBase t * (platformBps m + liquidityBps m + agentBps m) div 10000 \<and>
         platformFee t + liquidityFee t + agentFee t = feeBase t))"
proof (intro conjI allI impI ballI)
  fix m0
  assume "createMarket orch cap s p0 th bps = Inr m0"
  from createMarket_Inr [OF this]
  show "bpsOf m0 = (case bps of None \<Rightarrow> (3000, 6000, 1000) | Some b \<Rightarrow> b)"
    and "platformBps m0 + liquidityBps m0 + agentBps m0 = 10000"
    by (auto simp: defaultBps_def split: option.splits)
next
  show "bpsOf (mrun m ts) = bpsOf m" by (rule mrun_bps)
next
  assume "mreachable m"
  from mreachable_market_inv [OF this]
  show sum: "platformBps m + liquidityBps m + agentBps m = 10000"
    by (simp add: market_inv_def)
  fix t
  assume "t \<in> set (trades m)"
  with mreachable_market_inv [OF \<open>mreachable m\<close>] have ok: "trade_fees_ok m t"
    by (simp add: market_inv_def list_all_iff)
  then show "platformFee t + liquidityFee t + agentFee t =
           feeBase t * (platformBps m + liquidityBps m + agentBps m) div 10000"
    by (simp add: trade_fees_ok_def)
  with sum show "platformFee t + liquidityFee t + agentFee t = feeBase t"
    by simp
qed

theorem fee_split_sums_witness:
  "createMarket 99 1000000 1 5 10000 None = Inr market0 \<and>
   bpsOf market0 = (3000, 6000, 1000) \<and> bpsOf traded0 = (3000, 6000, 1000) \<and>
   mreachable traded0 \<and>
   map (\<lambda>t. (feeBase t, platformFee t, liquidityFee t, agentFee t)) (trades traded0) =
     [(5, 2, 3, 0), (400, 120, 240, 40), (2, 1, 1, 0)] \<and>
   list_all (\<lambda>t. platformFee t + liquidityFee t + agentFee t = feeBase t) (trades traded0)"
proof -
  have r: "mreachable traded0"
    unfolding traded0_def by (rule mreachable_mrun [OF market0_mreachable])
  note T = fee_split_sums [of 99 1000000 1 5 10000 None traded0 "[]"]
  from T market0_created have a: "bpsOf market0 = (3000, 6000, 1000)"
    by simp
  from fee_split_sums [of 99 1000000 1 5 10000 None market0
      "[(pricing1, 7, Buy 5), (pricing1, 8, Buy 400), (pricing1, 8, Sell 200)]"] a
  have b: "bpsOf traded0 = (3000, 6000, 1000)"
    by (simp add: traded0_def)
  from T r have "\<forall>t\<in>set (trades traded0). platformFee t + liquidityFee t + agentFee t = feeBase t"
    by blast
  then have c: "list_all (\<lambda>t. platformFee t + liquidityFee t + agentFee t = feeBase t) (trades traded0)"
    by (simp add: list_all_iff)
  from market0_created a b r traded0_trades c show ?thesis by simp
qed

subsection \<open>Graduation\<close>

lemma mexec_graduated:
  assumes "graduated m" "mexec pr m sender c = Inr m'"
  shows "graduated m'"
proof (cases c)
  case (Buy eth)
  with assms show ?thesis by (simp add: buy_def)
next
  case (Sell amount)
  with assms show ?thesis by (simp add: sell_def)
next
  case Migrate
  with assms migrate_Inr [of m sender m'] show ?thesis by simp
qed

lemma mapply_graduated: "graduated m \<Longrightarrow> graduated (mapply m t)"
  by (cases t) (auto split: sum.splits dest: mexec_graduated)

lemma mrun_graduated: "graduated m \<Longrightarrow> graduated (mrun m ts)"
  by (induction ts arbitrary: m) (simp_all add: mapply_graduated)

lemma flips_graduated: "graduated m \<Longrightarrow> flips m ts = 0"
  by (induction ts arbitrary: m) (simp_all add: mapply_graduated)

lemma flips_le_1: "flips m ts \<le> 1"
proof (induction ts arbitrary: m)
  case Nil
  show ?case by simp
next
  case (Cons t ts)
  show ?case
  proof (cases "graduated (mapply m t)")
    case True
    then show ?thesis by (simp add: flips_graduated)
  next
    case False
    with mapply_graduated [of m t] have "\<not> graduated m" by blast
    with False Cons [of "mapply m t"] show ?thesis by simp
  qed
qed

lemma flips_once:
  assumes "\<not> graduated m" "graduated (mrun m ts)"
  shows "flips m ts = 1"
  using assms
proof (induction ts arbitrary: m)
  case Nil
  then show ?case by simp
next
  case (Cons t ts)
  show ?case
  proof (cases "graduated (mapply m t)")
    case True
    with Cons.prems show ?thesis by (simp add: flips_graduated)
  next
    case False
    with Cons.IH [of "mapply m t"] Cons.prems show ?thesis by simp
  qed
qed

lemma graduated0_eq:
  "graduated graduated0" "ethRaised graduated0 = 11000" "\<not> migrated graduated0"
  "orchestrator graduated0 = 99" "liquidityLedger graduated0 = 6600"
  "\<not> graduated (mapply market0 (pricing1, 7, Buy 6000))"
  by (simp_all add: graduated0_def market0_def pricing1_def buy_def splitFee_def Let_def
      currentPrice_def)

text \<open>
  Claim C8, on the Curve Market as the specification describes it. A buy succeeds only on a
  market that has not graduated, and leaves it graduated exactly when the funds raised have
  reached the threshold. The flag is never reset: once true it is true after every run, and
  in any run it changes its value at most once, exactly once when the run takes a market
  from not graduated to graduated. On a graduated market every buy and every sell fails
  with \<open>MarketClosed\<close> and the transaction leaves the market as it was. A migrate call
  repeated on the market a successful migrate returned succeeds and returns that market
  unchanged.
\<close>

theorem graduation_latch:
  "(\<forall>m'. buy pr m sender eth = Inr m' \<longrightarrow>
      \<not> graduated m \<and> (graduated m' \<longleftrightarrow> ethRaised m' \<ge> graduationThreshold m')) \<and>
   (graduated m \<longrightarrow> graduated (mrun m ts)) \<and>
   flips m ts \<le> 1 \<and>
   (\<not> graduated m \<and> graduated (mrun m ts) \<longrightarrow> flips m ts = 1) \<and>
   (graduated m \<longrightarrow>
      buy pr m sender eth = Inl MarketClosed \<and> sell pr m sender amount = Inl MarketClosed \<and>
      mapply m (pr, sender, Buy eth) = m \<and> mapply m (pr, sender, Sell amount) = m) \<and>
   (\<forall>m'. migrate m sender = Inr m' \<longrightarrow> migrate m' sender = Inr m')"
proof (intro conjI allI impI)
  fix m'
  assume b: "buy pr m sender eth = Inr m'"
  from buy_Inr [OF b] show "\<not> graduated m"
    and "graduated m' \<longleftrightarrow> ethRaised m' \<ge> graduationThreshold m'"
    by simp_all
next
  assume "graduated m"
  then show "graduated (mrun m ts)" by (rule mrun_graduated)
next
  show "flips m ts \<le> 1" by (rule flips_le_1)
next
  assume "\<not> graduated m \<and> graduated (mrun m ts)"
  then show "flips m ts = 1" using flips_once by blast
next
  assume g: "graduated m"
  then show "buy pr m sender eth = Inl MarketClosed"
    and "sell pr m sender amount = Inl MarketClosed"
    by (simp_all add: buy_def sell_def)
  then show "mapply m (pr, sender, Buy eth) = m" and "mapply m (pr, sender, Sell amount) = m"
    by simp_all
next
  fix m'
  assume "migrate m sender = Inr m'"
  from migrate_Inr [OF this] show "migrate m' sender = Inr m'"
    by (simp add: migrate_def)
qed

theorem graduation_latch_witness:
  "\<not> graduated market0 \<and> \<not> graduated (mapply market0 (pricing1, 7, Buy 6000)) \<and>
   graduated graduated0 \<and> ethRaised graduated0 = 11000 \<and>
   flips market0 [(pricing1, 7, Buy 6000), (pricing1, 8, Buy 5000)] = 1 \<and>
   buy pricing1 graduated0 9 100 = Inl MarketClosed \<and>
   sell pricing1 graduated0 7 100 = Inl MarketClosed \<and>
   mapply graduated0 (pricing1, 9, Buy 100) = graduated0 \<and>
   migrate graduated0 99 = Inr (graduated0\<lparr>migrated := True, liquidityLedger := 0\<rparr>) \<and>
   migrate (graduated0\<lparr>migrated := True, liquidityLedger := 0\<rparr>) 99
     = Inr (graduated0\<lparr>migrated := True, liquidityLedger := 0\<rparr>)"
proof -
  have n: "\<not> graduated market0" by (simp add: market0_def)
  have mg: "migrate graduated0 99 = Inr (graduated0\<lparr>migrated := True, liquidityLedger := 0\<rparr>)"
    using graduated0_eq by (simp add: migrate_def)
  note T = graduation_latch [of pricing1 graduated0 9 100 "[]" 100]
  from T graduated0_eq(1)
  have a: "buy pricing1 graduated0 9 100 = Inl MarketClosed"
    "mapply graduated0 (pricing1, 9, Buy 100) = graduated0"
    by blast+
  from graduation_latch [of pricing1 graduated0 7 100 "[]" 100] graduated0_eq(1)
  have b: "sell pricing1 graduated0 7 100 = Inl MarketClosed"
    by blast
  from graduation_latch [of pricing1 graduated0 99 100 "[]" 100] mg
  have c: "migrate (graduated0\<lparr>migrated := True, liquidityLedger := 0\<rparr>) 99
     = Inr (graduated0\<lparr>migrated := True, liquidityLedger := 0\<rparr>)"
    by blast
  from graduation_latch [of pricing1 market0 7 100
      "[(pricing1, 7, Buy 6000), (pricing1, 8, Buy 5000)]" 100] n graduated0_eq(1)
  have d: "flips market0 [(pricing1, 7, Buy 6000), (pricing1, 8, Buy 5000)] = 1"
    by (simp add: graduated0_def)
  from n graduated0_eq a b c d mg show ?thesis by simp
qed

end
